theory Spec2Isabelle
  imports Main "HOL-Library.Sublist" "HOL-Library.AList" "HOL-Library.Multiset"
begin

section \<open>Python strings\<close>

text \<open>
  Text is modelled as \<^typ>\<open>string\<close>, one \<^typ>\<open>char\<close> per code point below 256.
  \<open>isspace\<close>, \<open>lower\<close> and \<open>strip\<close> follow Python's \<open>str\<close> methods on that range:
  the letters \<open>A\<close> to \<open>Z\<close> and the capital letters of Latin-1 have a lower-case form.
\<close>

definition isspace :: "char \<Rightarrow> bool" where
  "isspace c = (c \<in> set [CHR 0x09, CHR 0x0A, CHR 0x0B, CHR 0x0C, CHR 0x0D,
                          CHR 0x1C, CHR 0x1D, CHR 0x1E, CHR 0x1F, CHR 0x20, CHR 0x85, CHR 0xA0])"

definition strip :: "string \<Rightarrow> string" where
  "strip s = rev (dropWhile isspace (rev (dropWhile isspace s)))"

definition uppercase :: string where
  "uppercase = ''ABCDEFGHIJKLMNOPQRSTUVWXYZ'' @
       [CHR 0xC0, CHR 0xC1, CHR 0xC2, CHR 0xC3, CHR 0xC4, CHR 0xC5, CHR 0xC6, CHR 0xC7, CHR 0xC8, CHR 0xC9,
        CHR 0xCA, CHR 0xCB, CHR 0xCC, CHR 0xCD, CHR 0xCE, CHR 0xCF, CHR 0xD0, CHR 0xD1, CHR 0xD2, CHR 0xD3,
        CHR 0xD4, CHR 0xD5, CHR 0xD6, CHR 0xD8, CHR 0xD9, CHR 0xDA, CHR 0xDB, CHR 0xDC, CHR 0xDD, CHR 0xDE]"

definition lowercase :: string where
  "lowercase = ''abcdefghijklmnopqrstuvwxyz'' @
       [CHR 0xE0, CHR 0xE1, CHR 0xE2, CHR 0xE3, CHR 0xE4, CHR 0xE5, CHR 0xE6, CHR 0xE7, CHR 0xE8, CHR 0xE9,
        CHR 0xEA, CHR 0xEB, CHR 0xEC, CHR 0xED, CHR 0xEE, CHR 0xEF, CHR 0xF0, CHR 0xF1, CHR 0xF2, CHR 0xF3,
        CHR 0xF4, CHR 0xF5, CHR 0xF6, CHR 0xF8, CHR 0xF9, CHR 0xFA, CHR 0xFB, CHR 0xFC, CHR 0xFD, CHR 0xFE]"

definition lower_char :: "char \<Rightarrow> char" where
  "lower_char c = (case map_of (zip uppercase lowercase) c of None \<Rightarrow> c | Some d \<Rightarrow> d)"

definition lower :: "string \<Rightarrow> string" where
  "lower s = map lower_char s"

text \<open>\<open>str_in sub s\<close> is Python's \<open>sub in s\<close> on strings.\<close>

fun str_in :: "string \<Rightarrow> string \<Rightarrow> bool" where
  "str_in sub [] = (sub = [])"
| "str_in sub (c # cs) = (prefix sub (c # cs) \<or> str_in sub cs)"

text \<open>\<open>s.split('#')[0]\<close>: the text before the first \<open>#\<close>.\<close>

definition split_hash_0 :: "string \<Rightarrow> string" where
  "split_hash_0 s = takeWhile (\<lambda>c. c \<noteq> CHR ''#'') s"

text \<open>\<open>s.startswith(('http://', 'https://'))\<close>.\<close>

definition startswith_scheme :: "string \<Rightarrow> bool" where
  "startswith_scheme s = (prefix ''http://'' s \<or> prefix ''https://'' s)"

text \<open>\<open>str(n)\<close> for an integer, as the f-strings render a status code.\<close>

definition digit_char :: "nat \<Rightarrow> char" where
  "digit_char d = ''0123456789'' ! d"

function str_nat :: "nat \<Rightarrow> string" where
  "str_nat n = (if n < 10 then [digit_char n] else str_nat (n div 10) @ [digit_char (n mod 10)])"
  by pat_completeness auto
termination
  by (relation "measure id") auto

definition str_int :: "int \<Rightarrow> string" where
  "str_int i = (if i < 0 then CHR ''-'' # str_nat (nat (- i)) else str_nat (nat i))"

section \<open>Values, exceptions and the network\<close>

text \<open>The HTTP Code field of a result tuple holds an \<open>int\<close> or a sentinel \<open>str\<close>.\<close>

datatype pyval = IntV int | StrV string

text \<open>
  The exception classes the handlers name, with the subclass relation of
  \<open>requests.exceptions\<close>: \<open>ConnectTimeout\<close> derives from both \<open>ConnectionError\<close> and
  \<open>Timeout\<close>, \<open>SSLError\<close> and \<open>ProxyError\<close> from \<open>ConnectionError\<close>, \<open>ReadTimeout\<close>
  from \<open>Timeout\<close>. A raised \<open>RequestException\<close> stands for the base class and its
  remaining subclasses (\<open>InvalidURL\<close>, \<open>MissingSchema\<close>, ...), a raised \<open>Exception\<close>
  for every other subclass of \<open>Exception\<close>.
\<close>

datatype exc_class =
    Exception | RequestException | Timeout | ConnectionError | SSLError | ProxyError
  | ConnectTimeout | ReadTimeout | TooManyRedirects

fun mro :: "exc_class \<Rightarrow> exc_class list" where
  "mro Exception = [Exception]"
| "mro RequestException = [RequestException, Exception]"
| "mro Timeout = [Timeout, RequestException, Exception]"
| "mro ConnectionError = [ConnectionError, RequestException, Exception]"
| "mro SSLError = [SSLError, ConnectionError, RequestException, Exception]"
| "mro ProxyError = [ProxyError, ConnectionError, RequestException, Exception]"
| "mro ConnectTimeout = [ConnectTimeout, ConnectionError, Timeout, RequestException, Exception]"
| "mro ReadTimeout = [ReadTimeout, Timeout, RequestException, Exception]"
| "mro TooManyRedirects = [TooManyRedirects, RequestException, Exception]"

text \<open>A raised exception: its class and \<open>str(e)\<close>.\<close>

datatype exc = Exc (cls: exc_class) (msg: string)

definition isinstance :: "exc \<Rightarrow> exc_class \<Rightarrow> bool" where
  "isinstance e c = (c \<in> set (mro (cls e)))"

text \<open>
  A \<open>try\<close> statement's \<open>except\<close> clauses, tried in source order; an exception no clause
  matches propagates (\<open>Inl\<close>).
\<close>

fun except :: "(exc_class \<times> (exc \<Rightarrow> 'a)) list \<Rightarrow> exc \<Rightarrow> exc + 'a" where
  "except [] e = Inl e"
| "except ((c, h) # hs) e = (if isinstance e c then Inr (h e) else except hs e)"

datatype response = Response (status_code: int) (response_text: string)

datatype outcome = Returns response | Raises exc

text \<open>What the body of \<open>check_dns\<close>'s \<open>try\<close> does: resolve, raise \<open>socket.gaierror\<close>, or raise something else.\<close>

datatype dns_outcome = Resolved | GaiError string | DnsCheckError string

text \<open>
  What the network does to the (at most one) name lookup, \<open>HEAD\<close> and \<open>GET\<close> that one
  prober invocation issues.
\<close>

record net =
  dns_result :: dns_outcome
  head_result :: outcome
  get_result :: outcome

text \<open>The effects of a prober invocation, in order; requests carry their URL and timeout in seconds.\<close>

datatype event = RateLimit | DnsLookup string | HttpGet string int | HttpHead string int

type_synonym result5 = "string \<times> string \<times> pyval \<times> string \<times> string"
type_synonym result4 = "string \<times> string \<times> pyval \<times> string"

section \<open>\<open>check_urls_status.py\<close>\<close>

text \<open>
  The three scripts define functions of the same names; the model prefixes them with
  \<open>cus_\<close> (\<open>check_urls_status.py\<close>), \<open>uc_\<close> (\<open>url_checker.py\<close>) and \<open>rt_\<close>
  (\<open>retest_timeouts.py\<close>).
\<close>

definition cus_TIMEOUT :: int where "cus_TIMEOUT = 15"
definition cus_OUTPUT_FILE :: string where "cus_OUTPUT_FILE = ''url_status_results.csv''"

definition ERROR_MESSAGE_OOPS :: string where
  "ERROR_MESSAGE_OOPS =
     ''Oops, something has gone wrong. Please try again later while we try and fix this.''"

text \<open>
  \<open>check_dns\<close>: the host name it extracts from the URL only selects what is looked up, so
  the model takes the outcome of the lookup.
\<close>

definition check_dns :: "dns_outcome \<Rightarrow> bool option \<times> string option" where
  "check_dns d =
     (case d of
        Resolved \<Rightarrow> (Some True, None)
      | GaiError m \<Rightarrow> (Some False, Some (''DNS Error: '' @ m))
      | DnsCheckError m \<Rightarrow> (None, Some (''DNS Check Error: '' @ m)))"

text \<open>\<open>dns_error or 'DNS_PROBE_FINISHED_NXDOMAIN'\<close>.\<close>

definition or_default :: "string option \<Rightarrow> string \<Rightarrow> string" where
  "or_default x d = (case x of None \<Rightarrow> d | Some s \<Rightarrow> if s = [] then d else s)"

text \<open>The \<open>try\<close> block of \<open>check_url\<close> once \<open>requests.get\<close> has returned a response.\<close>

definition cus_classify :: "string \<Rightarrow> response \<Rightarrow> result5" where
  "cus_classify original_url response =
     (let http_code = status_code response;
          page_content = lower (response_text response)
      in if str_in (lower ERROR_MESSAGE_OOPS) page_content then
           (original_url, ''Error Page'', IntV http_code, ERROR_MESSAGE_OOPS, ''Application Error'')
         else if str_in ''this site can't be reached'' page_content
                 \<or> str_in ''site can't be reached'' page_content then
           (original_url, ''Site Unreachable'', IntV http_code, ''Site can't be reached'',
            ''Connection Error'')
         else if 200 \<le> http_code \<and> http_code < 400 then
           (original_url, ''Working'', IntV http_code, [], ''Success'')
         else if http_code \<ge> 400 then
           (original_url, ''HTTP '' @ str_int http_code, IntV http_code,
            ''HTTP Error '' @ str_int http_code, ''HTTP Error'')
         else
           (original_url, ''Unknown Status'', IntV http_code,
            ''Unexpected status code: '' @ str_int http_code, ''Unknown''))"

text \<open>The \<open>except\<close> clauses of \<open>check_url\<close>, in source order.\<close>

definition cus_handlers :: "string \<Rightarrow> (exc_class \<times> (exc \<Rightarrow> result5)) list" where
  "cus_handlers original_url =
     [(Timeout, \<lambda>e. (original_url, ''Timeout'', StrV ''Timeout'',
                      ''Request timeout - site did not respond'', ''Timeout'')),
      (SSLError, \<lambda>e. (original_url, ''SSL Error'', StrV ''SSL Error'',
                       ''SSL Certificate error: '' @ take 100 (msg e), ''SSL Error'')),
      (ConnectionError, \<lambda>e.
         (let error_msg = lower (msg e)
          in if str_in ''name or service not known'' error_msg
                \<or> str_in ''nodename nor servname'' error_msg then
               (original_url, ''DNS Error'', StrV ''DNS Error'', ''DNS_PROBE_FINISHED_NXDOMAIN'',
                ''DNS Error'')
             else if str_in ''refused'' error_msg then
               (original_url, ''Connection Refused'', StrV ''Connection Error'',
                ''Connection refused - site not responding'', ''Connection Error'')
             else
               (original_url, ''Connection Error'', StrV ''Connection Error'',
                ''Connection failed: '' @ take 100 (msg e), ''Connection Error''))),
      (TooManyRedirects, \<lambda>e. (original_url, ''Redirect Error'', StrV ''Redirect Error'',
                               ''Too many redirects'', ''Redirect Error'')),
      (RequestException, \<lambda>e. (original_url, ''Request Error'', StrV ''Request Error'',
                               take 150 (msg e), ''Request Error'')),
      (Exception, \<lambda>e. (original_url, ''Unknown Error'', StrV ''Unknown Error'',
                        take 150 (msg e), ''Unknown Error''))]"

text \<open>
  \<open>check_url\<close> of \<open>check_urls_status.py\<close>: the effects it performs and the tuple it
  returns (\<open>Inl\<close>: an exception leaves the function).
\<close>

definition cus_check_url :: "net \<Rightarrow> string \<Rightarrow> event list \<times> (exc + result5)" where
  "cus_check_url n url =
     (let original_url = strip url
      in if original_url = [] \<or> lower original_url = ''url'' then
           ([], Inr (original_url, ''Skipped'', StrV ''N/A'', ''Empty or header line'', ''N/A''))
         else
           let original_url = (if CHR ''#'' \<in> set original_url
                               then strip (split_hash_0 original_url) else original_url);
               normalized_url = (if \<not> startswith_scheme original_url
                                 then ''https://'' @ original_url else original_url);
               (dns_works, dns_error) = check_dns (dns_result n)
           in if dns_works = Some False then
                ([RateLimit, DnsLookup normalized_url],
                 Inr (original_url, ''DNS Error'', StrV ''N/A'',
                      or_default dns_error ''DNS_PROBE_FINISHED_NXDOMAIN'', ''DNS Error''))
              else
                ([RateLimit, DnsLookup normalized_url, HttpGet normalized_url cus_TIMEOUT],
                 case get_result n of
                   Returns response \<Rightarrow> Inr (cus_classify original_url response)
                 | Raises e \<Rightarrow> except (cus_handlers original_url) e))"

text \<open>
  \<open>open(filename).readlines()\<close>: the file is missing, unreadable, or a list of lines.
  \<open>Inl 1\<close> is \<open>sys.exit(1)\<close>.
\<close>

datatype 'a file_open = FileNotFound | ReadFailure string | Content 'a

definition cus_read_urls_from_file :: "string list file_open \<Rightarrow> int + string list" where
  "cus_read_urls_from_file f =
     (case f of
        FileNotFound \<Rightarrow> Inl 1
      | ReadFailure m \<Rightarrow> Inl 1
      | Content lines \<Rightarrow>
          Inr (filter (\<lambda>url. url \<noteq> [] \<and> lower url \<noteq> ''url'') (map strip lines)))"

text \<open>
  \<open>as_completed\<close> hands the futures back in the order they finish, which the code does
  not control. The schedule \<open>sched\<close> decides it: at each step its next number (modulo the
  number of pending futures) picks the future that finishes next.
\<close>

definition pick :: "nat list \<Rightarrow> nat \<Rightarrow> nat" where
  "pick sched n = (case sched of [] \<Rightarrow> 0 | c # _ \<Rightarrow> c mod n)"

function as_completed :: "nat list \<Rightarrow> 'a list \<Rightarrow> 'a list" where
  "as_completed sched [] = []"
| "as_completed sched (p # ps) =
     (p # ps) ! pick sched (Suc (length ps))
       # as_completed (tl sched)
           (take (pick sched (Suc (length ps))) (p # ps)
              @ drop (Suc (pick sched (Suc (length ps)))) (p # ps))"
  by pat_completeness auto
termination
  by (relation "measure (\<lambda>(sched, pending). length pending)")
     (auto simp: pick_def split: list.splits)

text \<open>\<open>future.result()\<close> on each completed future: the first one that raised ends the loop.\<close>

fun results_of :: "(exc + 'a) list \<Rightarrow> exc + 'a list" where
  "results_of [] = Inr []"
| "results_of (Inl e # fs) = Inl e"
| "results_of (Inr r # fs) = (case results_of fs of Inl e \<Rightarrow> Inl e | Inr rs \<Rightarrow> Inr (r # rs))"

text \<open>How a script ends: \<open>sys.exit\<close>, an uncaught exception, or normally.\<close>

datatype 'a run = Exit int | Crash exc | Done 'a

text \<open>
  \<open>executor.submit(check_url, url) for url in urls\<close>: task \<open>i\<close> probes the \<open>i\<close>-th URL
  against the network \<open>nets i\<close>.
\<close>

definition cus_tasks :: "(nat \<Rightarrow> net) \<Rightarrow> string list \<Rightarrow> (event list \<times> (exc + result5)) list" where
  "cus_tasks nets urls = map (\<lambda>(i, url). cus_check_url (nets i) url) (enumerate 0 urls)"

text \<open>\<open>main\<close>: the value is the CSV written (path, header, data rows).\<close>

definition cus_main ::
  "string list file_open \<Rightarrow> (nat \<Rightarrow> net) \<Rightarrow> nat list \<Rightarrow> (string \<times> string list \<times> result5 list) run" where
  "cus_main f nets sched =
     (case cus_read_urls_from_file f of
        Inl c \<Rightarrow> Exit c
      | Inr urls \<Rightarrow>
          (case results_of (as_completed sched (map snd (cus_tasks nets urls))) of
             Inl e \<Rightarrow> Crash e
           | Inr results \<Rightarrow>
               Done (cus_OUTPUT_FILE,
                     [''URL'', ''Status'', ''HTTP Code'', ''Error Message'', ''Error Type''],
                     results)))"

section \<open>\<open>url_checker.py\<close>\<close>

definition uc_TIMEOUT :: int where "uc_TIMEOUT = 20"
definition uc_OUTPUT_FILE :: string where "uc_OUTPUT_FILE = ''url_check_results.csv''"

definition KAYAKO_ERROR_MESSAGE :: string where
  "KAYAKO_ERROR_MESSAGE =
     ''Either this Kayako instance does not exist or we are facing temporary problems. Please try again in a few minutes''"

definition uc_normalize_url :: "string \<Rightarrow> string option" where
  "uc_normalize_url url_line =
     (let url_line = strip url_line
      in if url_line = [] then None
         else if lower url_line \<in> set [''instance name'', ''url'', ''domain''] then None
         else if \<not> startswith_scheme url_line then Some (''https://'' @ url_line)
         else Some url_line)"

text \<open>The \<open>try\<close> block of \<open>check_url\<close> once \<open>requests.get\<close> has returned a response.\<close>

definition uc_classify :: "string \<Rightarrow> response \<Rightarrow> result4" where
  "uc_classify original_url response =
     (let http_code = status_code response
      in if 200 \<le> http_code \<and> http_code < 400 then
           (let page_content = response_text response
            in if str_in (lower KAYAKO_ERROR_MESSAGE) (lower page_content) then
                 (original_url, ''Instance unavailable'', IntV http_code, KAYAKO_ERROR_MESSAGE)
               else (original_url, ''Active Kayako'', IntV http_code, []))
         else (original_url, ''Inactive'', IntV http_code, ''HTTP '' @ str_int http_code))"

text \<open>The \<open>except\<close> clauses of \<open>check_url\<close>, in source order.\<close>

definition uc_handlers :: "string \<Rightarrow> (exc_class \<times> (exc \<Rightarrow> result4)) list" where
  "uc_handlers original_url =
     [(Timeout, \<lambda>e. (original_url, ''Inactive'', StrV ''Timeout'', ''Request timeout'')),
      (ConnectionError, \<lambda>e.
         (let error_msg = msg e
          in if str_in ''SSL'' error_msg \<or> str_in ''certificate'' (lower error_msg) then
               (original_url, ''Inactive'', StrV ''SSL Error'', ''SSL/Certificate error'')
             else if str_in ''Name or service not known'' error_msg
                     \<or> str_in ''nodename nor servname'' error_msg then
               (original_url, ''Inactive'', StrV ''DNS Error'', ''DNS resolution failed'')
             else
               (original_url, ''Inactive'', StrV ''Connection Error'', ''Connection failed''))),
      (TooManyRedirects, \<lambda>e. (original_url, ''Inactive'', StrV ''Redirect Error'',
                               ''Too many redirects'')),
      (RequestException, \<lambda>e. (original_url, ''Inactive'', StrV ''Request Error'',
                               take 100 (msg e))),
      (Exception, \<lambda>e. (original_url, ''Inactive'', StrV ''Unknown Error'', take 100 (msg e)))]"

text \<open>\<open>not normalized_url\<close> holds for \<open>None\<close> and for the empty string.\<close>

definition falsy :: "string option \<Rightarrow> bool" where
  "falsy x = (case x of None \<Rightarrow> True | Some s \<Rightarrow> s = [])"

definition uc_check_url :: "net \<Rightarrow> string \<Rightarrow> event list \<times> (exc + result4)" where
  "uc_check_url n url =
     (let original_url = url;
          normalized_url = uc_normalize_url url
      in if falsy normalized_url then
           ([], Inr (original_url, ''Skipped'', StrV ''N/A'', ''Empty or header line''))
         else
           ([RateLimit, HttpGet (the normalized_url) uc_TIMEOUT],
            case get_result n of
              Returns response \<Rightarrow> Inr (uc_classify original_url response)
            | Raises e \<Rightarrow> except (uc_handlers original_url) e))"

definition uc_read_urls_from_file :: "string list file_open \<Rightarrow> int + string list" where
  "uc_read_urls_from_file f =
     (case f of
        FileNotFound \<Rightarrow> Inl 1
      | ReadFailure m \<Rightarrow> Inl 1
      | Content lines \<Rightarrow>
          (let start_idx =
                 (if lines \<noteq> []
                     \<and> lower (strip (hd lines)) \<in> set [''instance name'', ''url'', ''domain'']
                  then 1 else 0 :: nat)
           in Inr (filter (\<lambda>url. url \<noteq> []) (map strip (drop start_idx lines)))))"

definition uc_tasks :: "(nat \<Rightarrow> net) \<Rightarrow> string list \<Rightarrow> (event list \<times> (exc + result4)) list" where
  "uc_tasks nets urls = map (\<lambda>(i, url). uc_check_url (nets i) url) (enumerate 0 urls)"

definition uc_main ::
  "string list file_open \<Rightarrow> (nat \<Rightarrow> net) \<Rightarrow> nat list \<Rightarrow> (string \<times> string list \<times> result4 list) run" where
  "uc_main f nets sched =
     (case uc_read_urls_from_file f of
        Inl c \<Rightarrow> Exit c
      | Inr urls \<Rightarrow>
          (case results_of (as_completed sched (map snd (uc_tasks nets urls))) of
             Inl e \<Rightarrow> Crash e
           | Inr results \<Rightarrow>
               Done (uc_OUTPUT_FILE, [''URL'', ''Status'', ''HTTP Code'', ''Error Message''],
                     results)))"

section \<open>\<open>retest_timeouts.py\<close>\<close>

definition rt_TIMEOUT :: int where "rt_TIMEOUT = 30"
definition OUTPUT_CSV :: string where "OUTPUT_CSV = ''url_check_results_updated.csv''"

definition rt_normalize_url :: "string \<Rightarrow> string option" where
  "rt_normalize_url url_line =
     (let url_line = strip url_line
      in if url_line = [] then None
         else if \<not> startswith_scheme url_line then Some (''https://'' @ url_line)
         else Some url_line)"

datatype http_method = HEAD | GET

text \<open>
  The \<open>except\<close> clauses inside the loop over the two methods. A handler yields \<open>None\<close>
  where the source says \<open>continue\<close>, and the tuple it returns otherwise.
\<close>

definition rt_handlers :: "http_method \<Rightarrow> string \<Rightarrow> (exc_class \<times> (exc \<Rightarrow> result4 option)) list" where
  "rt_handlers method original_url =
     [(Timeout, \<lambda>e.
         if method = HEAD then None
         else Some (original_url, ''Inactive'', StrV ''Timeout'',
                    ''Request timeout after '' @ str_int rt_TIMEOUT @ ''s'')),
      (ConnectionError, \<lambda>e.
         (let error_msg = msg e
          in if str_in ''SSL'' error_msg \<or> str_in ''certificate'' (lower error_msg) then
               Some (original_url, ''Inactive'', StrV ''SSL Error'', ''SSL/Certificate error'')
             else if str_in ''Name or service not known'' error_msg
                     \<or> str_in ''nodename nor servname'' error_msg then
               Some (original_url, ''Inactive'', StrV ''DNS Error'', ''DNS resolution failed'')
             else if str_in ''Connection refused'' error_msg
                     \<or> str_in ''refused'' (lower error_msg) then
               Some (original_url, ''Inactive'', StrV ''Connection Refused'',
                     ''Connection refused by server'')
             else
               Some (original_url, ''Inactive'', StrV ''Connection Error'', ''Connection failed''))),
      (TooManyRedirects, \<lambda>e.
         Some (original_url, ''Inactive'', StrV ''Redirect Error'', ''Too many redirects'')),
      (SSLError, \<lambda>e.
         Some (original_url, ''Inactive'', StrV ''SSL Error'', ''SSL error: '' @ take 100 (msg e))),
      (RequestException, \<lambda>e.
         Some (original_url, ''Inactive'', StrV ''Request Error'', take 100 (msg e))),
      (Exception, \<lambda>e.
         Some (original_url, ''Inactive'', StrV ''Unknown Error'', take 100 (msg e)))]"

text \<open>The \<open>try\<close> block of one attempt once the request has returned a response.\<close>

definition rt_classify :: "string \<Rightarrow> response \<Rightarrow> result4" where
  "rt_classify original_url response =
     (let http_code = status_code response
      in if 200 \<le> http_code \<and> http_code < 400 then
           (original_url, ''Active'', IntV http_code, [])
         else (original_url, ''Inactive'', IntV http_code, ''HTTP '' @ str_int http_code))"

text \<open>The loop \<open>for method in ['HEAD', 'GET']\<close> and the \<open>return\<close> after it.\<close>

fun rt_attempts :: "net \<Rightarrow> string \<Rightarrow> string \<Rightarrow> http_method list \<Rightarrow> event list \<times> (exc + result4)" where
  "rt_attempts n original_url normalized_url [] =
     ([], Inr (original_url, ''Inactive'', StrV ''Timeout'',
               ''Request timeout after '' @ str_int rt_TIMEOUT @ ''s''))"
| "rt_attempts n original_url normalized_url (method # rest) =
     (let (request, result) =
            (if method = HEAD then (HttpHead normalized_url rt_TIMEOUT, head_result n)
             else (HttpGet normalized_url rt_TIMEOUT, get_result n))
      in case result of
           Returns response \<Rightarrow> ([request], Inr (rt_classify original_url response))
         | Raises e \<Rightarrow>
             (case except (rt_handlers method original_url) e of
                Inl e' \<Rightarrow> ([request], Inl e')
              | Inr (Some r) \<Rightarrow> ([request], Inr r)
              | Inr None \<Rightarrow>
                  (let (requests, r) = rt_attempts n original_url normalized_url rest
                   in (request # requests, r))))"

definition check_url_with_retry :: "net \<Rightarrow> string \<Rightarrow> event list \<times> (exc + result4)" where
  "check_url_with_retry n url =
     (let original_url = url;
          normalized_url = rt_normalize_url url
      in if falsy normalized_url then
           ([], Inr (original_url, ''Inactive'', StrV ''N/A'', ''Empty URL''))
         else rt_attempts n original_url (the normalized_url) [HEAD, GET])"

text \<open>
  A row of \<open>csv.DictReader\<close>: a dict from column name to cell text, kept as an
  association list in column order. \<open>row[k]\<close> is \<^term>\<open>map_of row k\<close> (\<open>None\<close>: \<open>KeyError\<close>),
  \<open>row[k] = v\<close> is \<^term>\<open>AList.update k v row\<close>.
\<close>

type_synonym row = "(string \<times> string) list"

definition KeyError :: "string \<Rightarrow> exc" where
  "KeyError k = Exc Exception k"

text \<open>The loop of \<open>read_csv_and_find_timeouts\<close> over the reader's rows.\<close>

fun find_timeouts :: "row list \<Rightarrow> string list \<Rightarrow> row list \<Rightarrow> exc + (string list \<times> row list)" where
  "find_timeouts [] timeout_urls all_rows = Inr (timeout_urls, all_rows)"
| "find_timeouts (row # rest) timeout_urls all_rows =
     (case map_of row ''HTTP Code'' of
        None \<Rightarrow> Inl (KeyError ''HTTP Code'')
      | Some code \<Rightarrow>
          if code = ''Timeout'' then
            (case map_of row ''URL'' of
               None \<Rightarrow> Inl (KeyError ''URL'')
             | Some url \<Rightarrow> find_timeouts rest (timeout_urls @ [url]) (all_rows @ [row]))
          else find_timeouts rest timeout_urls (all_rows @ [row]))"

definition read_csv_and_find_timeouts :: "row list file_open \<Rightarrow> int + (string list \<times> row list)" where
  "read_csv_and_find_timeouts f =
     (case f of
        FileNotFound \<Rightarrow> Inl 1
      | ReadFailure m \<Rightarrow> Inl 1
      | Content rows \<Rightarrow>
          (case find_timeouts rows [] [] of Inl e \<Rightarrow> Inl 1 | Inr r \<Rightarrow> Inr r))"

text \<open>
  \<open>updated_results[result[0]] = result\<close> for each result in completion order: a later
  result for the same URL replaces the earlier one.
\<close>

definition store_results :: "result4 list \<Rightarrow> (string \<rightharpoonup> result4)" where
  "store_results results = fold (\<lambda>result m. m(fst result \<mapsto> result)) results Map.empty"

text \<open>
  The cell text the csv writer emits for a value (\<open>str\<close> of a number, a string as it is).
  The model keeps cells as text, so it renders a value at the assignment to the row where
  the source leaves it to the writer.
\<close>

definition csv_str :: "pyval \<Rightarrow> string" where
  "csv_str v = (case v of IntV i \<Rightarrow> str_int i | StrV s \<Rightarrow> s)"

text \<open>The loop \<open>for row in all_rows\<close> that overwrites the retested rows.\<close>

fun update_rows :: "(string \<rightharpoonup> result4) \<Rightarrow> row list \<Rightarrow> exc + row list" where
  "update_rows updated_results [] = Inr []"
| "update_rows updated_results (row # rest) =
     (case map_of row ''URL'' of
        None \<Rightarrow> Inl (KeyError ''URL'')
      | Some url \<Rightarrow>
          (let row' =
                 (case updated_results url of
                    None \<Rightarrow> row
                  | Some (u, status, code, message) \<Rightarrow>
                      AList.update ''Error Message'' message
                        (AList.update ''HTTP Code'' (csv_str code)
                           (AList.update ''Status'' status row)))
           in case update_rows updated_results rest of
                Inl e \<Rightarrow> Inl e
              | Inr rows \<Rightarrow> Inr (row' # rows)))"

definition fieldnames :: "string list" where
  "fieldnames = [''URL'', ''Status'', ''HTTP Code'', ''Error Message'']"

text \<open>\<open>sep.join(xs)\<close>.\<close>

fun str_join :: "string \<Rightarrow> string list \<Rightarrow> string" where
  "str_join sep [] = []"
| "str_join sep [x] = x"
| "str_join sep (x # y # ys) = x @ sep @ str_join sep (y # ys)"

text \<open>
  \<open>repr(s)\<close> of a string that holds no quote, no backslash and no control character, as
  column names are: the string between single quotes.
\<close>

definition py_repr :: "string \<Rightarrow> string" where
  "py_repr s = [CHR 0x27] @ s @ [CHR 0x27]"

text \<open>
  \<open>csv.DictWriter(csvfile, fieldnames).writerows\<close>: a row with keys outside
  \<open>fieldnames\<close> raises \<open>ValueError\<close> with a message that names them, a missing key is
  written as the empty cell. Python lists the offending keys in the iteration order of a
  set, which it does not fix; the model lists them in the order of the row, so the message
  is exact when one key offends.
\<close>

definition writerow :: "row \<Rightarrow> exc + string list" where
  "writerow row =
     (let wrong_fields = filter (\<lambda>k. k \<notin> set fieldnames) (map fst row)
      in if wrong_fields \<noteq> [] then
           Inl (Exc Exception (''dict contains fields not in fieldnames: ''
                                 @ str_join '', '' (map py_repr wrong_fields)))
         else Inr (map (\<lambda>k. case map_of row k of None \<Rightarrow> [] | Some v \<Rightarrow> v) fieldnames))"

fun writerows :: "row list \<Rightarrow> exc + string list list" where
  "writerows [] = Inr []"
| "writerows (row # rest) =
     (case writerow row of
        Inl e \<Rightarrow> Inl e
      | Inr cells \<Rightarrow> (case writerows rest of Inl e \<Rightarrow> Inl e | Inr out \<Rightarrow> Inr (cells # out)))"

definition rt_tasks :: "(nat \<Rightarrow> net) \<Rightarrow> string list \<Rightarrow> (event list \<times> (exc + result4)) list" where
  "rt_tasks nets timeout_urls =
     map (\<lambda>(i, url). check_url_with_retry (nets i) url) (enumerate 0 timeout_urls)"

text \<open>
  \<open>main\<close> of the retest pass: \<open>Done None\<close> when it returns without writing (no Timeout
  row), else the CSV written (path, header, rows of cells).
\<close>

definition rt_main ::
  "row list file_open \<Rightarrow> (nat \<Rightarrow> net) \<Rightarrow> nat list
     \<Rightarrow> (string \<times> string list \<times> string list list) option run" where
  "rt_main f nets sched =
     (case read_csv_and_find_timeouts f of
        Inl c \<Rightarrow> Exit c
      | Inr (timeout_urls, all_rows) \<Rightarrow>
          if length timeout_urls = 0 then Done None
          else
            (case results_of (as_completed sched (map snd (rt_tasks nets timeout_urls))) of
               Inl e \<Rightarrow> Crash e
             | Inr results \<Rightarrow>
                 (case update_rows (store_results results) all_rows of
                    Inl e \<Rightarrow> Crash e
                  | Inr rows \<Rightarrow>
                      (case writerows rows of
                         Inl e \<Rightarrow> Crash e
                       | Inr out \<Rightarrow> Done (Some (OUTPUT_CSV, fieldnames, out))))))"

text \<open>
  \<open>main\<close> of the retest pass together with the requests it issues: one list per submitted
  task, in submission order (the tasks run concurrently, so only the order within a task is
  fixed). The second component is \<open>rt_main\<close>.
\<close>

definition rt_main_traced ::
  "row list file_open \<Rightarrow> (nat \<Rightarrow> net) \<Rightarrow> nat list
     \<Rightarrow> event list list \<times> (string \<times> string list \<times> string list list) option run" where
  "rt_main_traced f nets sched =
     (case read_csv_and_find_timeouts f of
        Inl c \<Rightarrow> ([], Exit c)
      | Inr (timeout_urls, all_rows) \<Rightarrow>
          if length timeout_urls = 0 then ([], Done None)
          else
            (map fst (rt_tasks nets timeout_urls),
             case results_of (as_completed sched (map snd (rt_tasks nets timeout_urls))) of
               Inl e \<Rightarrow> Crash e
             | Inr results \<Rightarrow>
                 (case update_rows (store_results results) all_rows of
                    Inl e \<Rightarrow> Crash e
                  | Inr rows \<Rightarrow>
                      (case writerows rows of
                         Inl e \<Rightarrow> Crash e
                       | Inr out \<Rightarrow> Done (Some (OUTPUT_CSV, fieldnames, out))))))"

section \<open>Strings: evaluation and basic facts\<close>

lemma lower_char_unfold:
  "lower_char c =
     (if c = CHR ''A'' then CHR ''a'' else if c = CHR ''B'' then CHR ''b'' else if
      c = CHR ''C'' then CHR ''c'' else if c = CHR ''D'' then CHR ''d'' else if
      c = CHR ''E'' then CHR ''e'' else if c = CHR ''F'' then CHR ''f'' else if
      c = CHR ''G'' then CHR ''g'' else if c = CHR ''H'' then CHR ''h'' else if
      c = CHR ''I'' then CHR ''i'' else if c = CHR ''J'' then CHR ''j'' else if
      c = CHR ''K'' then CHR ''k'' else if c = CHR ''L'' then CHR ''l'' else if
      c = CHR ''M'' then CHR ''m'' else if c = CHR ''N'' then CHR ''n'' else if
      c = CHR ''O'' then CHR ''o'' else if c = CHR ''P'' then CHR ''p'' else if
      c = CHR ''Q'' then CHR ''q'' else if c = CHR ''R'' then CHR ''r'' else if
      c = CHR ''S'' then CHR ''s'' else if c = CHR ''T'' then CHR ''t'' else if
      c = CHR ''U'' then CHR ''u'' else if c = CHR ''V'' then CHR ''v'' else if
      c = CHR ''W'' then CHR ''w'' else if c = CHR ''X'' then CHR ''x'' else if
      c = CHR ''Y'' then CHR ''y'' else if c = CHR ''Z'' then CHR ''z'' else if
      c = CHR 0xC0 then CHR 0xE0 else if c = CHR 0xC1 then CHR 0xE1 else if
      c = CHR 0xC2 then CHR 0xE2 else if c = CHR 0xC3 then CHR 0xE3 else if
      c = CHR 0xC4 then CHR 0xE4 else if c = CHR 0xC5 then CHR 0xE5 else if
      c = CHR 0xC6 then CHR 0xE6 else if c = CHR 0xC7 then CHR 0xE7 else if
      c = CHR 0xC8 then CHR 0xE8 else if c = CHR 0xC9 then CHR 0xE9 else if
      c = CHR 0xCA then CHR 0xEA else if c = CHR 0xCB then CHR 0xEB else if
      c = CHR 0xCC then CHR 0xEC else if c = CHR 0xCD then CHR 0xED else if
      c = CHR 0xCE then CHR 0xEE else if c = CHR 0xCF then CHR 0xEF else if
      c = CHR 0xD0 then CHR 0xF0 else if c = CHR 0xD1 then CHR 0xF1 else if
      c = CHR 0xD2 then CHR 0xF2 else if c = CHR 0xD3 then CHR 0xF3 else if
      c = CHR 0xD4 then CHR 0xF4 else if c = CHR 0xD5 then CHR 0xF5 else if
      c = CHR 0xD6 then CHR 0xF6 else if c = CHR 0xD8 then CHR 0xF8 else if
      c = CHR 0xD9 then CHR 0xF9 else if c = CHR 0xDA then CHR 0xFA else if
      c = CHR 0xDB then CHR 0xFB else if c = CHR 0xDC then CHR 0xFC else if
      c = CHR 0xDD then CHR 0xFD else if c = CHR 0xDE then CHR 0xFE else c)"
  by (simp add: lower_char_def uppercase_def lowercase_def)

lemmas str_eval = strip_def isspace_def lower_def lower_char_unfold split_hash_0_def
  startswith_scheme_def

lemma str_in_sublist: "str_in sub s \<longleftrightarrow> sublist sub s"
  by (induction s) (auto simp: sublist_Cons_right)

lemma str_in_length: "str_in sub s \<Longrightarrow> length sub \<le> length s"
  by (induction s) (auto dest: prefix_length_le)

lemma str_in_refl: "str_in s s"
  by (cases s) auto

lemma length_lower: "length (lower s) = length s"
  by (simp add: lower_def)

lemma short_body_no_oops:
  "length body < length ERROR_MESSAGE_OOPS \<Longrightarrow> \<not> str_in (lower ERROR_MESSAGE_OOPS) (lower body)"
  using str_in_length [of "lower ERROR_MESSAGE_OOPS" "lower body"]
  by (auto simp: length_lower)

lemma short_body_no_kayako:
  "length body < length KAYAKO_ERROR_MESSAGE
     \<Longrightarrow> \<not> str_in (lower KAYAKO_ERROR_MESSAGE) (lower body)"
  using str_in_length [of "lower KAYAKO_ERROR_MESSAGE" "lower body"]
  by (auto simp: length_lower)

lemma lower_example_com_comment:
  "lower ''example.com # comment'' = ''example.com # comment''"
  by (simp add: lower_def lower_char_unfold)

lemma strip_example_com_comment:
  "strip ''example.com # comment'' = ''example.com # comment''"
  by (simp add: strip_def isspace_def)

section \<open>Exceptions never leave a prober\<close>

lemma isinstance_Exception: "isinstance e Exception"
  by (cases e; cases "cls e") (auto simp: isinstance_def)

lemma cus_handlers_total: "\<not> isl (except (cus_handlers u) e)"
  by (simp add: cus_handlers_def isinstance_Exception)

lemma uc_handlers_total: "\<not> isl (except (uc_handlers u) e)"
  by (simp add: uc_handlers_def isinstance_Exception)

lemma cus_check_url_total: "\<not> isl (snd (cus_check_url n url))"
  by (simp add: cus_check_url_def Let_def cus_handlers_total split: prod.splits outcome.splits)

lemma uc_check_url_total: "\<not> isl (snd (uc_check_url n url))"
  by (simp add: uc_check_url_def Let_def uc_handlers_total split: outcome.splits)

section \<open>The dispatcher\<close>

lemma pick_less: "0 < m \<Longrightarrow> pick sched m < m"
  by (simp add: pick_def split: list.splits)

lemma as_completed_step:
  "xs \<noteq> [] \<Longrightarrow>
     as_completed sched xs =
       xs ! pick sched (length xs)
         # as_completed (tl sched)
             (take (pick sched (length xs)) xs @ drop (Suc (pick sched (length xs))) xs)"
  by (cases xs) simp_all

lemma as_completed_map: "as_completed sched (map f xs) = map f (as_completed sched xs)"
proof (induction "length xs" arbitrary: xs sched rule: less_induct)
  case less
  show ?case
  proof (cases "xs = []")
    case True
    then show ?thesis by simp
  next
    case False
    let ?k = "pick sched (length xs)"
    let ?rest = "take ?k xs @ drop (Suc ?k) xs"
    have k: "?k < length xs"
      using False by (simp add: pick_less)
    have shorter: "length ?rest < length xs"
      using k by simp
    have "as_completed sched (map f xs)
            = map f xs ! ?k # as_completed (tl sched) (map f ?rest)"
      using False as_completed_step [of "map f xs" sched]
      by (simp add: take_map drop_map)
    also have "\<dots> = f (xs ! ?k) # map f (as_completed (tl sched) ?rest)"
      using k less [OF shorter] by simp
    also have "\<dots> = map f (as_completed sched xs)"
      using False as_completed_step [of xs sched] by simp
    finally show ?thesis .
  qed
qed

lemma mset_as_completed: "mset (as_completed sched xs) = mset xs"
proof (induction "length xs" arbitrary: xs sched rule: less_induct)
  case less
  show ?case
  proof (cases "xs = []")
    case True
    then show ?thesis by simp
  next
    case False
    let ?k = "pick sched (length xs)"
    let ?rest = "take ?k xs @ drop (Suc ?k) xs"
    have k: "?k < length xs"
      using False by (simp add: pick_less)
    have shorter: "length ?rest < length xs"
      using k by simp
    have "mset (as_completed sched xs) = add_mset (xs ! ?k) (mset (as_completed (tl sched) ?rest))"
      using False as_completed_step [of xs sched] by simp
    also have "\<dots> = add_mset (xs ! ?k) (mset ?rest)"
      using less [OF shorter] by simp
    also have "\<dots> = mset (take ?k xs @ xs ! ?k # drop (Suc ?k) xs)"
      by simp
    also have "\<dots> = mset xs"
      using k by (simp only: id_take_nth_drop [symmetric])
    finally show ?thesis .
  qed
qed

lemma length_as_completed: "length (as_completed sched xs) = length xs"
  using mset_as_completed [of sched xs] by (metis size_mset)

text \<open>Every order of completion is the result of some schedule.\<close>

lemma as_completed_any_order: "mset ys = mset xs \<Longrightarrow> \<exists>sched. as_completed sched xs = ys"
proof (induction ys arbitrary: xs)
  case Nil
  then show ?case by simp
next
  case (Cons y ys)
  then have "y \<in> set xs"
    by (metis list.set_intros(1) set_mset_mset)
  then obtain k where k: "k < length xs" and y: "xs ! k = y"
    by (auto simp: in_set_conv_nth)
  let ?rest = "take k xs @ drop (Suc k) xs"
  have "xs = take k xs @ y # drop (Suc k) xs"
    using k y id_take_nth_drop by blast
  then have "mset xs = add_mset y (mset ?rest)"
    by (metis mset.simps(2) mset_append union_mset_add_mset_right)
  with Cons.prems have "mset ys = mset ?rest"
    by simp
  then obtain sched where "as_completed sched ?rest = ys"
    using Cons.IH by blast
  moreover have "pick (k # sched) (length xs) = k"
    using k by (simp add: pick_def)
  moreover have "xs \<noteq> []"
    using k by auto
  ultimately have "as_completed (k # sched) xs = y # ys"
    using y by (simp add: as_completed_step)
  then show ?case ..
qed

lemma results_of_map_Inr: "results_of (map Inr xs) = Inr xs"
  by (induction xs) auto

lemma cus_tasks_results:
  "map snd (cus_tasks nets urls)
     = map Inr (map (\<lambda>(i, url). projr (snd (cus_check_url (nets i) url))) (enumerate 0 urls))"
proof -
  have "snd (cus_check_url (nets i) url) = Inr (projr (snd (cus_check_url (nets i) url)))"
    for i url
    using cus_check_url_total [of "nets i" url] by (cases "snd (cus_check_url (nets i) url)") auto
  then show ?thesis
    unfolding cus_tasks_def by (induction urls rule: rev_induct) (simp_all add: enumerate_append_eq)
qed

lemma uc_tasks_results:
  "map snd (uc_tasks nets urls)
     = map Inr (map (\<lambda>(i, url). projr (snd (uc_check_url (nets i) url))) (enumerate 0 urls))"
proof -
  have "snd (uc_check_url (nets i) url) = Inr (projr (snd (uc_check_url (nets i) url)))"
    for i url
    using uc_check_url_total [of "nets i" url] by (cases "snd (uc_check_url (nets i) url)") auto
  then show ?thesis
    unfolding uc_tasks_def by (induction urls rule: rev_induct) (simp_all add: enumerate_append_eq)
qed

lemma cus_main_Done:
  "cus_main (Content lines) nets sched =
     Done (cus_OUTPUT_FILE, [''URL'', ''Status'', ''HTTP Code'', ''Error Message'', ''Error Type''],
           as_completed sched
             (map (\<lambda>(i, url). projr (snd (cus_check_url (nets i) url)))
                (enumerate 0 (filter (\<lambda>url. url \<noteq> [] \<and> lower url \<noteq> ''url'')
                   (map strip lines)))))"
proof -
  have "results_of (as_completed sched (map snd (cus_tasks nets urls)))
          = Inr (as_completed sched
                  (map (\<lambda>(i, url). projr (snd (cus_check_url (nets i) url))) (enumerate 0 urls)))"
    for urls
    by (simp only: cus_tasks_results as_completed_map results_of_map_Inr)
  then show ?thesis
    by (simp add: cus_main_def cus_read_urls_from_file_def)
qed

lemma uc_main_Done:
  "uc_main (Content lines) nets sched =
     Done (uc_OUTPUT_FILE, [''URL'', ''Status'', ''HTTP Code'', ''Error Message''],
           as_completed sched
             (map (\<lambda>(i, url). projr (snd (uc_check_url (nets i) url)))
                (enumerate 0 (filter (\<lambda>url. url \<noteq> [])
                   (map strip (drop (if lines \<noteq> [] \<and> lower (strip (hd lines))
                          \<in> set [''instance name'', ''url'', ''domain''] then 1 else 0) lines))))))"
proof -
  have "results_of (as_completed sched (map snd (uc_tasks nets urls)))
          = Inr (as_completed sched
                  (map (\<lambda>(i, url). projr (snd (uc_check_url (nets i) url))) (enumerate 0 urls)))"
    for urls
    by (simp only: uc_tasks_results as_completed_map results_of_map_Inr)
  then show ?thesis
    by (simp add: uc_main_def uc_read_urls_from_file_def Let_def)
qed

section \<open>Trimming and the URL field\<close>

lemma dropWhile_not_head: "dropWhile P xs = y # ys \<Longrightarrow> \<not> P y"
  by (induction xs) (auto split: if_splits)

lemma dropWhile_hd_id: "xs = [] \<or> \<not> P (hd xs) \<Longrightarrow> dropWhile P xs = xs"
  by (cases xs) auto

lemma strip_strip: "strip (strip s) = strip s"
proof -
  define a where "a = dropWhile isspace s"
  define b where "b = dropWhile isspace (rev a)"
  have b_hd: "b = [] \<or> \<not> isspace (hd b)"
    unfolding b_def by (cases "dropWhile isspace (rev a)") (auto dest: dropWhile_not_head)
  have a_hd: "a = [] \<or> \<not> isspace (hd a)"
    unfolding a_def by (cases "dropWhile isspace s") (auto dest: dropWhile_not_head)
  have "rev a = takeWhile isspace (rev a) @ b"
    unfolding b_def by simp
  then have "rev (rev a) = rev (takeWhile isspace (rev a) @ b)"
    by (rule arg_cong)
  then have a_eq: "a = rev b @ rev (takeWhile isspace (rev a))"
    by simp
  have "rev b = [] \<or> \<not> isspace (hd (rev b))"
  proof (cases "rev b")
    case Nil
    then show ?thesis by simp
  next
    case (Cons y ys)
    have "hd a = hd (rev b @ rev (takeWhile isspace (rev a)))"
      using a_eq by (rule arg_cong)
    with Cons have "hd a = y"
      by simp
    moreover have "a \<noteq> []"
      using a_eq Cons by auto
    ultimately show ?thesis
      using a_hd Cons by simp
  qed
  then have "dropWhile isspace (rev b) = rev b"
    by (rule dropWhile_hd_id)
  moreover have "dropWhile isspace b = b"
    using b_hd by (rule dropWhile_hd_id)
  moreover have "strip s = rev b"
    by (simp add: strip_def a_def b_def)
  ultimately show ?thesis
    by (simp add: strip_def)
qed

lemma except_fst:
  "\<forall>p \<in> set hs. fst (snd p e) = u \<Longrightarrow> except hs e = Inr r \<Longrightarrow> fst r = u"
  by (induction hs) (auto split: if_splits)

lemma map_fst_enumerate:
  "(\<And>i x. x \<in> set xs \<Longrightarrow> fst (f i x) = g x)
     \<Longrightarrow> map fst (map (\<lambda>(i, x). f i x) (enumerate n xs)) = map g xs"
  by (induction xs arbitrary: n) auto

lemma cus_handlers_first: "fst (projr (except (cus_handlers u) e)) = u"
proof -
  have "\<forall>p \<in> set (cus_handlers u). fst (snd p e) = u"
    by (simp add: cus_handlers_def Let_def)
  then show ?thesis
    using except_fst [of "cus_handlers u" e u] cus_handlers_total [of u e]
    by (cases "except (cus_handlers u) e") auto
qed

lemma uc_handlers_first: "fst (projr (except (uc_handlers u) e)) = u"
proof -
  have "\<forall>p \<in> set (uc_handlers u). fst (snd p e) = u"
    by (simp add: uc_handlers_def Let_def)
  then show ?thesis
    using except_fst [of "uc_handlers u" e u] uc_handlers_total [of u e]
    by (cases "except (uc_handlers u) e") auto
qed

section \<open>Skipped lines\<close>

text \<open>
  C5 (as stated): a line that, after trimming and comment stripping, is empty or one of the
  header tokens \<open>url\<close>, \<open>domain\<close>, \<open>instance name\<close> yields a Skipped record with HTTP
  code and error type \<open>N/A\<close>, with no network I/O and no rate-limiter acquisition. It fails
  for \<open>check_urls_status.py\<close>, whose only header token is \<open>url\<close>: the line \<open>domain\<close> is
  probed as \<open>https://domain\<close>.
\<close>

theorem cus_domain_line_probed:
  "cus_check_url \<lparr>dns_result = Resolved, head_result = Returns (Response 200 ''ok''),
                   get_result = Returns (Response 200 ''ok'')\<rparr> ''domain''
     = ([RateLimit, DnsLookup ''https://domain'', HttpGet ''https://domain'' 15],
        Inr (''domain'', ''Working'', IntV 200, [], ''Success''))"
proof -
  have "\<not> str_in (lower ERROR_MESSAGE_OOPS) (lower ''ok'')"
    by (rule short_body_no_oops) (simp add: ERROR_MESSAGE_OOPS_def)
  moreover have "lower ''ok'' = ''ok''" "lower ''domain'' = ''domain''" "strip ''domain'' = ''domain''"
    by (simp_all add: str_eval)
  ultimately show ?thesis
    by (simp add: cus_check_url_def cus_classify_def check_dns_def cus_TIMEOUT_def
        startswith_scheme_def Let_def)
qed

text \<open>
  C5 (amended): a line that, after trimming whitespace, is empty or equals
  (case-insensitively) a header token of the script that reads it (\<open>url\<close> in
  \<open>check_urls_status.py\<close>; \<open>instance name\<close>, \<open>url\<close>, \<open>domain\<close> in \<open>url_checker.py\<close>)
  yields a record with status Skipped and HTTP code \<open>N/A\<close> (and error type \<open>N/A\<close> in
  \<open>check_urls_status.py\<close>, whose tuple alone has that field), and the prober performs no
  effect at all: no rate-limiter acquisition, no lookup, no request.
\<close>

theorem skipped_line_no_io:
  "(strip line = [] \<or> lower (strip line) = ''url'' \<longrightarrow>
      cus_check_url n line
        = ([], Inr (strip line, ''Skipped'', StrV ''N/A'', ''Empty or header line'', ''N/A'')))
   \<and> (strip line = [] \<or> lower (strip line) \<in> {''instance name'', ''url'', ''domain''} \<longrightarrow>
      uc_check_url n line
        = ([], Inr (line, ''Skipped'', StrV ''N/A'', ''Empty or header line'')))"
  by (auto simp: cus_check_url_def uc_check_url_def uc_normalize_url_def falsy_def Let_def)

theorem skipped_line_no_io_witness:
  "lower (strip '' URL '') = ''url''
   \<and> cus_check_url \<lparr>dns_result = Resolved, head_result = Returns (Response 200 ''ok''),
                      get_result = Returns (Response 200 ''ok'')\<rparr> '' URL ''
       = ([], Inr (''URL'', ''Skipped'', StrV ''N/A'', ''Empty or header line'', ''N/A''))
   \<and> uc_check_url \<lparr>dns_result = Resolved, head_result = Returns (Response 200 ''ok''),
                     get_result = Returns (Response 200 ''ok'')\<rparr> '' URL ''
       = ([], Inr ('' URL '', ''Skipped'', StrV ''N/A'', ''Empty or header line''))"
proof -
  have s: "strip '' URL '' = ''URL''"
    by (simp add: strip_def isspace_def)
  have l: "lower ''URL'' = ''url''"
    by (simp add: lower_def lower_char_unfold)
  show ?thesis
    using skipped_line_no_io [of "'' URL ''" "\<lparr>dns_result = Resolved,
        head_result = Returns (Response 200 ''ok''), get_result = Returns (Response 200 ''ok'')\<rparr>"]
    by (simp add: s l)
qed

section \<open>Normalization\<close>

text \<open>
  C8 (as stated): for every non-skipped line a trailing \<open>#\<close>-comment is stripped and
  \<open>https://\<close> prepended before any request, so \<open>example.com # comment\<close> is probed as
  \<open>https://example.com\<close>. It fails for \<open>url_checker.py\<close>, which strips no comment: the
  request goes to \<open>https://example.com # comment\<close>.
\<close>

theorem uc_comment_kept_in_request:
  "fst (uc_check_url \<lparr>dns_result = Resolved, head_result = Returns (Response 200 ''ok''),
                       get_result = Returns (Response 200 ''ok'')\<rparr> ''example.com # comment'')
     = [RateLimit, HttpGet ''https://example.com # comment'' 20]"
  by (simp add: uc_check_url_def uc_normalize_url_def falsy_def uc_TIMEOUT_def
      startswith_scheme_def Let_def strip_example_com_comment lower_example_com_comment)

text \<open>
  C8 (amended): for every non-skipped line, \<open>check_url\<close> of \<open>check_urls_status.py\<close> strips a
  \<open>#\<close>-comment from the trimmed line, trims again, prepends \<open>https://\<close> unless the text
  starts with \<open>http://\<close> or \<open>https://\<close>, and only then acquires the rate limiter, looks
  the name up and (unless the lookup fails) requests that URL; \<open>check_url\<close> of
  \<open>url_checker.py\<close> prepends \<open>https://\<close> to the trimmed line in the same way but strips
  no comment.
\<close>

theorem request_url_normalized:
  "(\<not> (strip line = [] \<or> lower (strip line) = ''url'') \<longrightarrow>
      (let original = (if CHR ''#'' \<in> set (strip line) then strip (split_hash_0 (strip line))
                       else strip line);
           normalized = (if startswith_scheme original then original else ''https://'' @ original)
       in fst (cus_check_url n line) = [RateLimit, DnsLookup normalized]
          \<or> fst (cus_check_url n line)
              = [RateLimit, DnsLookup normalized, HttpGet normalized cus_TIMEOUT]))
   \<and> (\<not> (strip line = [] \<or> lower (strip line) \<in> {''instance name'', ''url'', ''domain''}) \<longrightarrow>
      fst (uc_check_url n line)
        = [RateLimit,
           HttpGet (if startswith_scheme (strip line) then strip line else ''https://'' @ strip line)
             uc_TIMEOUT])"
proof (intro conjI impI)
  assume "\<not> (strip line = [] \<or> lower (strip line) = ''url'')"
  then show "let original = (if CHR ''#'' \<in> set (strip line) then strip (split_hash_0 (strip line))
                       else strip line);
           normalized = (if startswith_scheme original then original else ''https://'' @ original)
       in fst (cus_check_url n line) = [RateLimit, DnsLookup normalized]
          \<or> fst (cus_check_url n line)
              = [RateLimit, DnsLookup normalized, HttpGet normalized cus_TIMEOUT]"
    by (cases "check_dns (dns_result n)") (simp add: cus_check_url_def Let_def)
next
  assume "\<not> (strip line = [] \<or> lower (strip line) \<in> {''instance name'', ''url'', ''domain''})"
  then show "fst (uc_check_url n line)
        = [RateLimit,
           HttpGet (if startswith_scheme (strip line) then strip line else ''https://'' @ strip line)
             uc_TIMEOUT]"
    by (simp add: uc_check_url_def uc_normalize_url_def falsy_def Let_def)
qed

theorem request_url_normalized_witness:
  "strip ''example.com # comment'' \<noteq> []
   \<and> lower (strip ''example.com # comment'') \<noteq> ''url''
   \<and> (fst (cus_check_url \<lparr>dns_result = Resolved, head_result = Returns (Response 200 ''ok''),
                            get_result = Returns (Response 200 ''ok'')\<rparr> ''example.com # comment'')
         = [RateLimit, DnsLookup ''https://example.com'']
       \<or> fst (cus_check_url \<lparr>dns_result = Resolved, head_result = Returns (Response 200 ''ok''),
                               get_result = Returns (Response 200 ''ok'')\<rparr> ''example.com # comment'')
         = [RateLimit, DnsLookup ''https://example.com'', HttpGet ''https://example.com'' cus_TIMEOUT])
   \<and> fst (uc_check_url \<lparr>dns_result = Resolved, head_result = Returns (Response 200 ''ok''),
                          get_result = Returns (Response 200 ''ok'')\<rparr> ''example.com # comment'')
       = [RateLimit, HttpGet ''https://example.com # comment'' uc_TIMEOUT]"
proof -
  have c: "split_hash_0 ''example.com # comment'' = ''example.com ''"
    "strip ''example.com '' = ''example.com''"
    by (simp_all add: split_hash_0_def strip_def isspace_def)
  show ?thesis
    using request_url_normalized [of "''example.com # comment''" "\<lparr>dns_result = Resolved,
        head_result = Returns (Response 200 ''ok''), get_result = Returns (Response 200 ''ok'')\<rparr>"]
    by (simp add: strip_example_com_comment lower_example_com_comment c startswith_scheme_def
        Let_def)
qed

section \<open>Rows of the report\<close>

text \<open>
  C4 (as stated): the run produces one record per input line, header and blank lines
  giving a Skipped record, so the CSV has as many data rows as the input has lines. It
  fails: \<open>read_urls_from_file\<close> drops the header and the blank lines before any record is
  made, and three input lines can give one row.
\<close>

theorem header_and_blank_lines_omitted:
  "cus_main (Content [''URL'' @ [CHR 0x0A], [CHR 0x0A], ''example.com'' @ [CHR 0x0A]])
     (\<lambda>i. \<lparr>dns_result = Resolved, head_result = Returns (Response 200 ''ok''),
            get_result = Returns (Response 200 ''ok'')\<rparr>) []
     = Done (''url_status_results.csv'',
             [''URL'', ''Status'', ''HTTP Code'', ''Error Message'', ''Error Type''],
             [(''example.com'', ''Working'', IntV 200, [], ''Success'')])"
proof -
  have "\<not> str_in (lower ERROR_MESSAGE_OOPS) (lower ''ok'')"
    by (rule short_body_no_oops) (simp add: ERROR_MESSAGE_OOPS_def)
  moreover have "lower ''ok'' = ''ok''" "lower ''URL'' = ''url''"
    "lower ''example.com'' = ''example.com''"
    by (simp_all add: lower_def lower_char_unfold)
  moreover have "strip (''URL'' @ [CHR 0x0A]) = ''URL''" "strip [CHR 0x0A] = []"
    "strip (''example.com'' @ [CHR 0x0A]) = ''example.com''"
    "strip ''example.com'' = ''example.com''"
    by (simp_all add: strip_def isspace_def)
  ultimately show ?thesis
    by (simp add: cus_main_Done cus_OUTPUT_FILE_def enumerate_eq_zip pick_def
        cus_check_url_def cus_classify_def check_dns_def startswith_scheme_def Let_def)
qed

text \<open>
  C4 (amended): for every readable input file the run writes exactly one row per line that
  \<open>read_urls_from_file\<close> keeps. \<open>check_urls_status.py\<close> keeps the lines whose trimmed text
  is neither empty nor \<open>url\<close> (case-insensitively); \<open>url_checker.py\<close> drops a first line
  that is a header token and keeps the remaining lines whose trimmed text is not empty.
  Dropped lines give no row, so the CSV has at most as many data rows as the input has lines.
\<close>

theorem one_row_per_kept_line:
  "(\<exists>rows. cus_main (Content lines) nets sched
              = Done (cus_OUTPUT_FILE,
                      [''URL'', ''Status'', ''HTTP Code'', ''Error Message'', ''Error Type''], rows)
           \<and> length rows
              = length (filter (\<lambda>url. url \<noteq> [] \<and> lower url \<noteq> ''url'') (map strip lines))
           \<and> length rows \<le> length lines)
   \<and> (\<exists>rows. uc_main (Content lines) nets sched
              = Done (uc_OUTPUT_FILE, [''URL'', ''Status'', ''HTTP Code'', ''Error Message''], rows)
           \<and> length rows
              = length (filter (\<lambda>url. url \<noteq> [])
                  (map strip (drop (if lines \<noteq> [] \<and> lower (strip (hd lines))
                         \<in> set [''instance name'', ''url'', ''domain''] then 1 else 0) lines)))
           \<and> length rows \<le> length lines)"
proof (intro conjI)
  have "length (filter (\<lambda>url. url \<noteq> [] \<and> lower url \<noteq> ''url'') (map strip lines)) \<le> length lines"
    using length_filter_le [of _ "map strip lines"] by simp
  then show "\<exists>rows. cus_main (Content lines) nets sched
              = Done (cus_OUTPUT_FILE,
                      [''URL'', ''Status'', ''HTTP Code'', ''Error Message'', ''Error Type''], rows)
           \<and> length rows
              = length (filter (\<lambda>url. url \<noteq> [] \<and> lower url \<noteq> ''url'') (map strip lines))
           \<and> length rows \<le> length lines"
    by (simp add: cus_main_Done length_as_completed)
next
  let ?start = "if lines \<noteq> [] \<and> lower (strip (hd lines))
                         \<in> set [''instance name'', ''url'', ''domain''] then 1 else 0 :: nat"
  have "length (filter (\<lambda>url. url \<noteq> []) (map strip (drop ?start lines)))
          \<le> length (map strip (drop ?start lines))"
    by (rule length_filter_le)
  then have "length (filter (\<lambda>url. url \<noteq> []) (map strip (drop ?start lines))) \<le> length lines"
    by simp
  then show "\<exists>rows. uc_main (Content lines) nets sched
              = Done (uc_OUTPUT_FILE, [''URL'', ''Status'', ''HTTP Code'', ''Error Message''], rows)
           \<and> length rows
              = length (filter (\<lambda>url. url \<noteq> [])
                  (map strip (drop ?start lines)))
           \<and> length rows \<le> length lines"
    by (simp add: uc_main_Done length_as_completed)
qed

text \<open>
  C9 (as stated): the URL field of a written record is the trimmed, comment-stripped text
  of the line, never the normalized URL. The second half holds, the first fails for
  \<open>url_checker.py\<close>, which strips no comment: the URL field of the row for
  \<open>example.com # comment\<close> is that whole text.
\<close>

theorem uc_url_field_keeps_comment:
  "uc_main (Content [''example.com # comment'' @ [CHR 0x0A]])
     (\<lambda>i. \<lparr>dns_result = Resolved, head_result = Returns (Response 200 ''ok''),
            get_result = Returns (Response 200 ''ok'')\<rparr>) []
     = Done (''url_check_results.csv'', [''URL'', ''Status'', ''HTTP Code'', ''Error Message''],
             [(''example.com # comment'', ''Active Kayako'', IntV 200, [])])"
proof -
  have "\<not> str_in (lower KAYAKO_ERROR_MESSAGE) (lower ''ok'')"
    by (rule short_body_no_kayako) (simp add: KAYAKO_ERROR_MESSAGE_def)
  moreover have "strip (''example.com # comment'' @ [CHR 0x0A]) = ''example.com # comment''"
    by (simp add: strip_def isspace_def)
  ultimately show ?thesis
    by (simp add: uc_main_Done uc_OUTPUT_FILE_def enumerate_eq_zip pick_def
        uc_check_url_def uc_normalize_url_def uc_classify_def falsy_def startswith_scheme_def
        Let_def strip_example_com_comment lower_example_com_comment)
qed

text \<open>
  C9 (amended): the URL fields of the rows a run writes are, up to the order in which the
  probes complete, the original texts of the lines it keeps, never the normalized URLs: in
  \<open>check_urls_status.py\<close> the trimmed line with a \<open>#\<close>-comment stripped (and trimmed
  again), in \<open>url_checker.py\<close> the trimmed line with any \<open>#\<close>-comment left in place. The
  \<open>https://\<close> prepended for the request is not part of either.
\<close>

theorem url_field_is_original_text:
  "(\<exists>rows. cus_main (Content lines) nets sched
              = Done (cus_OUTPUT_FILE,
                      [''URL'', ''Status'', ''HTTP Code'', ''Error Message'', ''Error Type''], rows)
           \<and> mset (map fst rows)
              = mset (map (\<lambda>url. if CHR ''#'' \<in> set url then strip (split_hash_0 url) else url)
                        (filter (\<lambda>url. url \<noteq> [] \<and> lower url \<noteq> ''url'') (map strip lines))))
   \<and> (\<exists>rows. uc_main (Content lines) nets sched
              = Done (uc_OUTPUT_FILE, [''URL'', ''Status'', ''HTTP Code'', ''Error Message''], rows)
           \<and> mset (map fst rows)
              = mset (filter (\<lambda>url. url \<noteq> [])
                  (map strip (drop (if lines \<noteq> [] \<and> lower (strip (hd lines))
                         \<in> set [''instance name'', ''url'', ''domain''] then 1 else 0) lines))))"
proof (intro conjI)
  let ?kept = "filter (\<lambda>url. url \<noteq> [] \<and> lower url \<noteq> ''url'') (map strip lines)"
  let ?orig = "\<lambda>url. if CHR ''#'' \<in> set url then strip (split_hash_0 url) else url"
  have field: "fst (projr (snd (cus_check_url n url))) = ?orig url"
    if "url \<in> set ?kept" for n url
  proof -
    from that obtain line where "url = strip line" and "url \<noteq> []" and "lower url \<noteq> ''url''"
      by auto
    moreover have "strip (strip line) = strip line"
      by (rule strip_strip)
    ultimately show ?thesis
      by (cases "check_dns (dns_result n)"; cases "get_result n")
         (auto simp: cus_check_url_def Let_def cus_classify_def cus_handlers_first)
  qed
  have "map fst (map (\<lambda>(i, url). projr (snd (cus_check_url (nets i) url))) (enumerate 0 ?kept))
          = map ?orig ?kept"
    using field by (rule map_fst_enumerate)
  then have "mset (map fst (as_completed sched
                (map (\<lambda>(i, url). projr (snd (cus_check_url (nets i) url))) (enumerate 0 ?kept))))
          = mset (map ?orig ?kept)"
    by (simp only: as_completed_map [symmetric] mset_as_completed)
  then show "\<exists>rows. cus_main (Content lines) nets sched
              = Done (cus_OUTPUT_FILE,
                      [''URL'', ''Status'', ''HTTP Code'', ''Error Message'', ''Error Type''], rows)
           \<and> mset (map fst rows) = mset (map ?orig ?kept)"
    by (simp add: cus_main_Done)
next
  let ?kept = "filter (\<lambda>url. url \<noteq> [])
                  (map strip (drop (if lines \<noteq> [] \<and> lower (strip (hd lines))
                         \<in> set [''instance name'', ''url'', ''domain''] then 1 else 0) lines))"
  have field: "fst (projr (snd (uc_check_url n url))) = url" for n url
    by (cases "get_result n")
       (auto simp: uc_check_url_def Let_def uc_classify_def uc_handlers_first)
  have "map fst (map (\<lambda>(i, url). projr (snd (uc_check_url (nets i) url))) (enumerate 0 ?kept))
          = ?kept"
    using map_fst_enumerate [of ?kept "\<lambda>i url. projr (snd (uc_check_url (nets i) url))" "\<lambda>url. url" 0]
      field
    by simp
  then have "mset (map fst (as_completed sched
                (map (\<lambda>(i, url). projr (snd (uc_check_url (nets i) url))) (enumerate 0 ?kept))))
          = mset ?kept"
    by (simp only: as_completed_map [symmetric] mset_as_completed)
  then show "\<exists>rows. uc_main (Content lines) nets sched
              = Done (uc_OUTPUT_FILE, [''URL'', ''Status'', ''HTTP Code'', ''Error Message''], rows)
           \<and> mset (map fst rows) = mset ?kept"
    by (simp add: uc_main_Done)
qed

section \<open>Classification of responses\<close>

text \<open>
  C3 (as stated): a response whose body contains a known error-page marker (the Oops
  message, the Kayako message, \<open>site can't be reached\<close>), compared case-insensitively, is
  classified as Error Page / Instance unavailable / Site Unreachable whatever its status
  code. It fails for the Kayako marker: \<open>url_checker.py\<close> reads the body only when the
  code is in 200..399, and a 404 response carrying the marker is reported as Inactive.
\<close>

theorem uc_marker_ignored_on_404:
  "str_in (lower KAYAKO_ERROR_MESSAGE) (lower KAYAKO_ERROR_MESSAGE)
   \<and> snd (uc_check_url \<lparr>dns_result = Resolved, head_result = Returns (Response 404 []),
                          get_result = Returns (Response 404 KAYAKO_ERROR_MESSAGE)\<rparr>
            ''example.com'')
       = Inr (''example.com'', ''Inactive'', IntV 404, ''HTTP 404'')"
proof -
  have "strip ''example.com'' = ''example.com''" "lower ''example.com'' = ''example.com''"
    by (simp_all add: strip_def isspace_def lower_def lower_char_unfold)
  then show ?thesis
    by (simp add: str_in_refl uc_check_url_def uc_normalize_url_def uc_classify_def falsy_def
        startswith_scheme_def Let_def str_int_def digit_char_def)
qed

text \<open>
  C3 (amended): in \<open>check_urls_status.py\<close>, for every response to a probed line whose body
  contains, case-insensitively, the Oops message, the record is Error Page with that
  message, and otherwise, if the body contains \<open>site can't be reached\<close>, Site Unreachable
  with the message \<open>Site can't be reached\<close>, whatever the status code. In
  \<open>url_checker.py\<close>, a response with a code in 200..399 whose body contains the Kayako
  message is Instance unavailable with that message; a response with any other code is
  Inactive with the message \<open>HTTP <code>\<close>, whatever its body.
\<close>

theorem error_page_markers:
  "(\<not> (strip line = [] \<or> lower (strip line) = ''url'') \<and> (\<forall>m. dns_result n \<noteq> GaiError m)
      \<and> get_result n = Returns (Response code body) \<longrightarrow>
      (let original = (if CHR ''#'' \<in> set (strip line) then strip (split_hash_0 (strip line))
                       else strip line)
       in (str_in (lower ERROR_MESSAGE_OOPS) (lower body) \<longrightarrow>
             snd (cus_check_url n line)
               = Inr (original, ''Error Page'', IntV code, ERROR_MESSAGE_OOPS,
                      ''Application Error''))
          \<and> (\<not> str_in (lower ERROR_MESSAGE_OOPS) (lower body)
               \<and> str_in ''site can't be reached'' (lower body) \<longrightarrow>
             snd (cus_check_url n line)
               = Inr (original, ''Site Unreachable'', IntV code, ''Site can't be reached'',
                      ''Connection Error''))))
   \<and> (\<not> (strip line = [] \<or> lower (strip line) \<in> {''instance name'', ''url'', ''domain''})
      \<and> get_result n = Returns (Response code body) \<longrightarrow>
      (200 \<le> code \<and> code < 400 \<and> str_in (lower KAYAKO_ERROR_MESSAGE) (lower body) \<longrightarrow>
         snd (uc_check_url n line)
           = Inr (line, ''Instance unavailable'', IntV code, KAYAKO_ERROR_MESSAGE))
      \<and> (\<not> (200 \<le> code \<and> code < 400) \<longrightarrow>
         snd (uc_check_url n line)
           = Inr (line, ''Inactive'', IntV code, ''HTTP '' @ str_int code)))"
proof (intro conjI impI)
  assume a: "\<not> (strip line = [] \<or> lower (strip line) = ''url'') \<and> (\<forall>m. dns_result n \<noteq> GaiError m)
      \<and> get_result n = Returns (Response code body)"
  then have dns: "fst (check_dns (dns_result n)) \<noteq> Some False"
    by (cases "dns_result n") (simp_all add: check_dns_def)
  show "let original = (if CHR ''#'' \<in> set (strip line) then strip (split_hash_0 (strip line))
                       else strip line)
       in (str_in (lower ERROR_MESSAGE_OOPS) (lower body) \<longrightarrow>
             snd (cus_check_url n line)
               = Inr (original, ''Error Page'', IntV code, ERROR_MESSAGE_OOPS,
                      ''Application Error''))
          \<and> (\<not> str_in (lower ERROR_MESSAGE_OOPS) (lower body)
               \<and> str_in ''site can't be reached'' (lower body) \<longrightarrow>
             snd (cus_check_url n line)
               = Inr (original, ''Site Unreachable'', IntV code, ''Site can't be reached'',
                      ''Connection Error''))"
    using a dns
    by (cases "check_dns (dns_result n)") (simp add: cus_check_url_def cus_classify_def Let_def)
next
  assume "\<not> (strip line = [] \<or> lower (strip line) \<in> {''instance name'', ''url'', ''domain''})
      \<and> get_result n = Returns (Response code body)"
    and "200 \<le> code \<and> code < 400 \<and> str_in (lower KAYAKO_ERROR_MESSAGE) (lower body)"
  then show "snd (uc_check_url n line)
           = Inr (line, ''Instance unavailable'', IntV code, KAYAKO_ERROR_MESSAGE)"
    by (simp add: uc_check_url_def uc_normalize_url_def uc_classify_def falsy_def Let_def)
next
  assume "\<not> (strip line = [] \<or> lower (strip line) \<in> {''instance name'', ''url'', ''domain''})
      \<and> get_result n = Returns (Response code body)"
    and "\<not> (200 \<le> code \<and> code < 400)"
  then show "snd (uc_check_url n line)
           = Inr (line, ''Inactive'', IntV code, ''HTTP '' @ str_int code)"
    by (simp add: uc_check_url_def uc_normalize_url_def uc_classify_def falsy_def Let_def)
qed

theorem error_page_markers_witness:
  "str_in (lower ERROR_MESSAGE_OOPS) (lower ERROR_MESSAGE_OOPS)
   \<and> snd (cus_check_url \<lparr>dns_result = Resolved, head_result = Returns (Response 500 []),
                           get_result = Returns (Response 500 ERROR_MESSAGE_OOPS)\<rparr>
            ''example.com'')
       = Inr (''example.com'', ''Error Page'', IntV 500, ERROR_MESSAGE_OOPS, ''Application Error'')
   \<and> snd (uc_check_url \<lparr>dns_result = Resolved, head_result = Returns (Response 200 []),
                          get_result = Returns (Response 200 KAYAKO_ERROR_MESSAGE)\<rparr>
            ''example.com'')
       = Inr (''example.com'', ''Instance unavailable'', IntV 200, KAYAKO_ERROR_MESSAGE)"
proof -
  have e: "strip ''example.com'' = ''example.com''" "lower ''example.com'' = ''example.com''"
    by (simp_all add: strip_def isspace_def lower_def lower_char_unfold)
  show ?thesis
    using error_page_markers [of "''example.com''"
        "\<lparr>dns_result = Resolved, head_result = Returns (Response 500 []),
          get_result = Returns (Response 500 ERROR_MESSAGE_OOPS)\<rparr>" 500 ERROR_MESSAGE_OOPS]
      error_page_markers [of "''example.com''"
        "\<lparr>dns_result = Resolved, head_result = Returns (Response 200 []),
          get_result = Returns (Response 200 KAYAKO_ERROR_MESSAGE)\<rparr>" 200 KAYAKO_ERROR_MESSAGE]
    by (simp add: e str_in_refl Let_def)
qed

section \<open>The retest prober\<close>

lemma rt_handlers_total: "\<not> isl (except (rt_handlers method u) e)"
  by (simp add: rt_handlers_def isinstance_Exception)

lemma rt_attempts_total: "\<not> isl (snd (rt_attempts n u nu mths))"
proof (induction mths)
  case Nil
  then show ?case by simp
next
  case (Cons mth mths)
  show ?case
  proof (cases "if mth = HEAD then head_result n else get_result n")
    case (Returns response)
    then show ?thesis
      by (simp split: if_splits)
  next
    case (Raises e)
    show ?thesis
    proof (cases "except (rt_handlers mth u) e")
      case (Inl e')
      then show ?thesis
        using rt_handlers_total [of mth u e] by simp
    next
      case (Inr r)
      with Raises Cons show ?thesis
        by (cases r; cases "rt_attempts n u nu mths") (auto split: if_splits)
    qed
  qed
qed

lemma check_url_with_retry_total: "\<not> isl (snd (check_url_with_retry n url))"
  by (simp add: check_url_with_retry_def Let_def rt_attempts_total del: rt_attempts.simps)

lemma isinstance_SSLError_ConnectionError: "isinstance e SSLError \<Longrightarrow> isinstance e ConnectionError"
  by (cases e; cases "cls e") (auto simp: isinstance_def)

lemma rt_handlers_HEAD_timeout: "isinstance e Timeout \<Longrightarrow> except (rt_handlers HEAD u) e = Inr None"
  by (simp add: rt_handlers_def)

lemma str_int_rt_TIMEOUT: "str_int rt_TIMEOUT = ''30''"
  by (simp add: rt_TIMEOUT_def str_int_def digit_char_def)

lemma rt_handlers_precedence:
  assumes "method = GET \<or> \<not> isinstance e Timeout"
  shows "\<exists>m.
     except (rt_handlers method u) e
       = Inr (Some (u, ''Inactive'',
              StrV (if isinstance e Timeout then ''Timeout''
                    else if isinstance e ConnectionError then
                      (if str_in ''SSL'' (msg e) \<or> str_in ''certificate'' (lower (msg e))
                       then ''SSL Error''
                       else if str_in ''Name or service not known'' (msg e)
                               \<or> str_in ''nodename nor servname'' (msg e) then ''DNS Error''
                       else if str_in ''Connection refused'' (msg e)
                               \<or> str_in ''refused'' (lower (msg e)) then ''Connection Refused''
                       else ''Connection Error'')
                    else if isinstance e TooManyRedirects then ''Redirect Error''
                    else if isinstance e RequestException then ''Request Error''
                    else ''Unknown Error''),
              m))
     \<and> length m \<le> 150"
proof (cases "isinstance e Timeout")
  case True
  with assms have "method = GET"
    by simp
  with True show ?thesis
    by (simp add: rt_handlers_def str_int_rt_TIMEOUT)
next
  case False
  then show ?thesis
    using isinstance_SSLError_ConnectionError [of e]
    by (auto simp: rt_handlers_def isinstance_Exception Let_def)
qed

section \<open>Classification of exceptions\<close>

lemma cus_handlers_precedence:
  "\<exists>code m t.
     except (cus_handlers u) e
       = Inr (u,
              (if isinstance e Timeout then ''Timeout''
               else if isinstance e SSLError then ''SSL Error''
               else if isinstance e ConnectionError then
                 (if str_in ''name or service not known'' (lower (msg e))
                     \<or> str_in ''nodename nor servname'' (lower (msg e)) then ''DNS Error''
                  else if str_in ''refused'' (lower (msg e)) then ''Connection Refused''
                  else ''Connection Error'')
               else if isinstance e TooManyRedirects then ''Redirect Error''
               else if isinstance e RequestException then ''Request Error''
               else ''Unknown Error''),
              code, m, t)
     \<and> length m \<le> 150"
  by (auto simp: cus_handlers_def isinstance_Exception Let_def)

lemma uc_handlers_precedence:
  "\<exists>m.
     except (uc_handlers u) e
       = Inr (u, ''Inactive'',
              StrV (if isinstance e Timeout then ''Timeout''
                    else if isinstance e ConnectionError then
                      (if str_in ''SSL'' (msg e) \<or> str_in ''certificate'' (lower (msg e))
                       then ''SSL Error''
                       else if str_in ''Name or service not known'' (msg e)
                               \<or> str_in ''nodename nor servname'' (msg e) then ''DNS Error''
                       else ''Connection Error'')
                    else if isinstance e TooManyRedirects then ''Redirect Error''
                    else if isinstance e RequestException then ''Request Error''
                    else ''Unknown Error''),
              m)
     \<and> length m \<le> 150"
  by (auto simp: uc_handlers_def isinstance_Exception Let_def)

text \<open>
  C2 (as stated): every prober returns one classified record and never raises, and a
  failed request is classified Timeout, SSL Error, DNS Error, Connection Refused,
  Connection Error, Redirect Error, Request Error, Unknown Error in that precedence. The
  precedence fails for \<open>url_checker.py\<close>, which has no Connection Refused class: a refused
  connection is reported as Connection Error.
\<close>

theorem uc_refused_is_connection_error:
  "snd (uc_check_url \<lparr>dns_result = Resolved, head_result = Returns (Response 200 []),
                       get_result = Raises (Exc ConnectionError ''Connection refused'')\<rparr>
         ''example.com'')
     = Inr (''example.com'', ''Inactive'', StrV ''Connection Error'', ''Connection failed'')"
proof -
  have "strip ''example.com'' = ''example.com''" "lower ''example.com'' = ''example.com''"
    "lower ''Connection refused'' = ''connection refused''"
    by (simp_all add: strip_def isspace_def lower_def lower_char_unfold)
  then show ?thesis
    by (simp add: uc_check_url_def uc_normalize_url_def uc_handlers_def falsy_def
        startswith_scheme_def isinstance_def Let_def)
qed

text \<open>
  C2 (amended): every prober (\<open>check_url\<close> of both scripts, \<open>check_url_with_retry\<close>) returns
  a record for every line and every behaviour of the network that raises subclasses of
  \<open>Exception\<close>; none leaves the function. When the request of a probed line raises,
  \<open>check_urls_status.py\<close> sets the status by the stated precedence: Timeout; SSL Error;
  for another connection failure DNS Error when the lower-cased message contains
  \<open>name or service not known\<close> or \<open>nodename nor servname\<close>, else Connection Refused when
  it contains \<open>refused\<close>, else Connection Error; Redirect Error; Request Error; Unknown
  Error. \<open>url_checker.py\<close> reports status Inactive and puts the class in the HTTP Code
  field: Timeout; for a connection failure (TLS failures included, it has no separate
  handler) SSL Error when the message contains \<open>SSL\<close> or, lower-cased, \<open>certificate\<close>,
  else DNS Error on the two name-resolution phrases, else Connection Error (refusals
  included); Redirect Error; Request Error; Unknown Error. \<open>check_url_with_retry\<close> does
  the same for the exception that ends it (of \<open>HEAD\<close> when that is no timeout, else of
  \<open>GET\<close>), with Connection Refused before Connection Error when the message contains
  \<open>refused\<close>. The message of such a record has at most 150 characters.
\<close>

theorem exception_classification:
  "(\<exists>r. snd (cus_check_url n line) = Inr r)
   \<and> (\<exists>r. snd (uc_check_url n line) = Inr r)
   \<and> (\<exists>r. snd (check_url_with_retry n line) = Inr r)
   \<and> (\<not> (strip line = [] \<or> lower (strip line) = ''url'') \<and> (\<forall>m. dns_result n \<noteq> GaiError m)
        \<and> get_result n = Raises e \<longrightarrow>
      (\<exists>u code m t.
         snd (cus_check_url n line)
           = Inr (u,
                  (if isinstance e Timeout then ''Timeout''
                   else if isinstance e SSLError then ''SSL Error''
                   else if isinstance e ConnectionError then
                     (if str_in ''name or service not known'' (lower (msg e))
                         \<or> str_in ''nodename nor servname'' (lower (msg e)) then ''DNS Error''
                      else if str_in ''refused'' (lower (msg e)) then ''Connection Refused''
                      else ''Connection Error'')
                   else if isinstance e TooManyRedirects then ''Redirect Error''
                   else if isinstance e RequestException then ''Request Error''
                   else ''Unknown Error''),
                  code, m, t)
         \<and> length m \<le> 150))
   \<and> (\<not> (strip line = [] \<or> lower (strip line) \<in> {''instance name'', ''url'', ''domain''})
        \<and> get_result n = Raises e \<longrightarrow>
      (\<exists>m.
         snd (uc_check_url n line)
           = Inr (line, ''Inactive'',
                  StrV (if isinstance e Timeout then ''Timeout''
                        else if isinstance e ConnectionError then
                          (if str_in ''SSL'' (msg e) \<or> str_in ''certificate'' (lower (msg e))
                           then ''SSL Error''
                           else if str_in ''Name or service not known'' (msg e)
                                   \<or> str_in ''nodename nor servname'' (msg e) then ''DNS Error''
                           else ''Connection Error'')
                        else if isinstance e TooManyRedirects then ''Redirect Error''
                        else if isinstance e RequestException then ''Request Error''
                        else ''Unknown Error''),
                  m)
         \<and> length m \<le> 150))
   \<and> (strip line \<noteq> []
        \<and> (head_result n = Raises e \<and> \<not> isinstance e Timeout
           \<or> head_result n = Raises e' \<and> isinstance e' Timeout \<and> get_result n = Raises e) \<longrightarrow>
      (\<exists>m.
         snd (check_url_with_retry n line)
           = Inr (line, ''Inactive'',
                  StrV (if isinstance e Timeout then ''Timeout''
                        else if isinstance e ConnectionError then
                          (if str_in ''SSL'' (msg e) \<or> str_in ''certificate'' (lower (msg e))
                           then ''SSL Error''
                           else if str_in ''Name or service not known'' (msg e)
                                   \<or> str_in ''nodename nor servname'' (msg e) then ''DNS Error''
                           else if str_in ''Connection refused'' (msg e)
                                   \<or> str_in ''refused'' (lower (msg e)) then ''Connection Refused''
                           else ''Connection Error'')
                        else if isinstance e TooManyRedirects then ''Redirect Error''
                        else if isinstance e RequestException then ''Request Error''
                        else ''Unknown Error''),
                  m)
         \<and> length m \<le> 150))"
proof (intro conjI impI)
  show "\<exists>r. snd (cus_check_url n line) = Inr r"
    using cus_check_url_total [of n line] by (cases "snd (cus_check_url n line)") auto
  show "\<exists>r. snd (uc_check_url n line) = Inr r"
    using uc_check_url_total [of n line] by (cases "snd (uc_check_url n line)") auto
  show "\<exists>r. snd (check_url_with_retry n line) = Inr r"
    using check_url_with_retry_total [of n line]
    by (cases "snd (check_url_with_retry n line)") auto
next
  assume a: "\<not> (strip line = [] \<or> lower (strip line) = ''url'')
      \<and> (\<forall>m. dns_result n \<noteq> GaiError m) \<and> get_result n = Raises e"
  then have dns: "fst (check_dns (dns_result n)) \<noteq> Some False"
    by (cases "dns_result n") (simp_all add: check_dns_def)
  define u where "u = (if CHR ''#'' \<in> set (strip line) then strip (split_hash_0 (strip line))
                       else strip line)"
  have "snd (cus_check_url n line) = except (cus_handlers u) e"
    using a dns
    by (cases "check_dns (dns_result n)") (simp add: cus_check_url_def Let_def u_def)
  then show "\<exists>u code m t.
         snd (cus_check_url n line)
           = Inr (u,
                  (if isinstance e Timeout then ''Timeout''
                   else if isinstance e SSLError then ''SSL Error''
                   else if isinstance e ConnectionError then
                     (if str_in ''name or service not known'' (lower (msg e))
                         \<or> str_in ''nodename nor servname'' (lower (msg e)) then ''DNS Error''
                      else if str_in ''refused'' (lower (msg e)) then ''Connection Refused''
                      else ''Connection Error'')
                   else if isinstance e TooManyRedirects then ''Redirect Error''
                   else if isinstance e RequestException then ''Request Error''
                   else ''Unknown Error''),
                  code, m, t)
         \<and> length m \<le> 150"
    using cus_handlers_precedence [of u e] by metis
next
  assume "\<not> (strip line = [] \<or> lower (strip line) \<in> {''instance name'', ''url'', ''domain''})
        \<and> get_result n = Raises e"
  then have "snd (uc_check_url n line) = except (uc_handlers line) e"
    by (simp add: uc_check_url_def uc_normalize_url_def falsy_def Let_def)
  then show "\<exists>m.
         snd (uc_check_url n line)
           = Inr (line, ''Inactive'',
                  StrV (if isinstance e Timeout then ''Timeout''
                        else if isinstance e ConnectionError then
                          (if str_in ''SSL'' (msg e) \<or> str_in ''certificate'' (lower (msg e))
                           then ''SSL Error''
                           else if str_in ''Name or service not known'' (msg e)
                                   \<or> str_in ''nodename nor servname'' (msg e) then ''DNS Error''
                           else ''Connection Error'')
                        else if isinstance e TooManyRedirects then ''Redirect Error''
                        else if isinstance e RequestException then ''Request Error''
                        else ''Unknown Error''),
                  m)
         \<and> length m \<le> 150"
    using uc_handlers_precedence [of line e] by metis
next
  assume a: "strip line \<noteq> []
        \<and> (head_result n = Raises e \<and> \<not> isinstance e Timeout
           \<or> head_result n = Raises e' \<and> isinstance e' Timeout \<and> get_result n = Raises e)"
  then have nu: "\<not> falsy (rt_normalize_url line)"
    by (simp add: rt_normalize_url_def falsy_def Let_def)
  from a consider
      (head) "head_result n = Raises e" "\<not> isinstance e Timeout"
    | (get) "head_result n = Raises e'" "isinstance e' Timeout" "get_result n = Raises e"
    by blast
  then have "\<exists>method. (method = GET \<or> \<not> isinstance e Timeout)
      \<and> snd (check_url_with_retry n line) = map_sum id the (except (rt_handlers method line) e)"
  proof cases
    case head
    obtain m where "except (rt_handlers HEAD line) e = Inr (Some m)"
      using rt_handlers_precedence [of HEAD e line] head by auto
    with head nu show ?thesis
      by (intro exI [of _ HEAD]) (simp add: check_url_with_retry_def Let_def)
  next
    case get
    obtain m where "except (rt_handlers GET line) e = Inr (Some m)"
      using rt_handlers_precedence [of GET e line] by auto
    with get nu show ?thesis
      by (intro exI [of _ GET])
         (simp add: check_url_with_retry_def Let_def rt_handlers_HEAD_timeout)
  qed
  then obtain mth where m: "mth = GET \<or> \<not> isinstance e Timeout"
    and r: "snd (check_url_with_retry n line) = map_sum id the (except (rt_handlers mth line) e)"
    by blast
  from rt_handlers_precedence [OF m, of line] obtain message
    where x: "except (rt_handlers mth line) e
       = Inr (Some (line, ''Inactive'',
              StrV (if isinstance e Timeout then ''Timeout''
                    else if isinstance e ConnectionError then
                      (if str_in ''SSL'' (msg e) \<or> str_in ''certificate'' (lower (msg e))
                       then ''SSL Error''
                       else if str_in ''Name or service not known'' (msg e)
                               \<or> str_in ''nodename nor servname'' (msg e) then ''DNS Error''
                       else if str_in ''Connection refused'' (msg e)
                               \<or> str_in ''refused'' (lower (msg e)) then ''Connection Refused''
                       else ''Connection Error'')
                    else if isinstance e TooManyRedirects then ''Redirect Error''
                    else if isinstance e RequestException then ''Request Error''
                    else ''Unknown Error''),
              message))"
      and l: "length message \<le> 150"
    by (elim exE conjE)
  show "\<exists>m.
         snd (check_url_with_retry n line)
           = Inr (line, ''Inactive'',
                  StrV (if isinstance e Timeout then ''Timeout''
                        else if isinstance e ConnectionError then
                          (if str_in ''SSL'' (msg e) \<or> str_in ''certificate'' (lower (msg e))
                           then ''SSL Error''
                           else if str_in ''Name or service not known'' (msg e)
                                   \<or> str_in ''nodename nor servname'' (msg e) then ''DNS Error''
                           else if str_in ''Connection refused'' (msg e)
                                   \<or> str_in ''refused'' (lower (msg e)) then ''Connection Refused''
                           else ''Connection Error'')
                        else if isinstance e TooManyRedirects then ''Redirect Error''
                        else if isinstance e RequestException then ''Request Error''
                        else ''Unknown Error''),
                  m)
         \<and> length m \<le> 150"
    unfolding r x using l by (intro exI [of _ message]) simp
qed

theorem exception_classification_witness:
  "strip ''example.com'' \<noteq> [] \<and> lower (strip ''example.com'') \<noteq> ''url''
   \<and> isinstance (Exc ConnectTimeout ''timed out'') Timeout
   \<and> isinstance (Exc ConnectTimeout ''timed out'') ConnectionError
   \<and> (\<exists>u code m t.
         snd (cus_check_url \<lparr>dns_result = Resolved, head_result = Returns (Response 200 []),
                              get_result = Raises (Exc ConnectTimeout ''timed out'')\<rparr>
                ''example.com'')
           = Inr (u, ''Timeout'', code, m, t) \<and> length m \<le> 150)
   \<and> (\<exists>m.
         snd (uc_check_url \<lparr>dns_result = Resolved, head_result = Returns (Response 200 []),
                             get_result = Raises (Exc ConnectTimeout ''timed out'')\<rparr>
                ''example.com'')
           = Inr (''example.com'', ''Inactive'', StrV ''Timeout'', m) \<and> length m \<le> 150)
   \<and> (\<exists>m.
         snd (check_url_with_retry
                \<lparr>dns_result = Resolved, head_result = Raises (Exc ReadTimeout ''timed out''),
                  get_result = Raises (Exc ConnectionError ''Connection refused'')\<rparr>
                ''example.com'')
           = Inr (''example.com'', ''Inactive'', StrV ''Connection Refused'', m)
         \<and> length m \<le> 150)"
proof -
  have e: "strip ''example.com'' = ''example.com''" "lower ''example.com'' = ''example.com''"
    by (simp_all add: strip_def isspace_def lower_def lower_char_unfold)
  have i: "isinstance (Exc ConnectTimeout ''timed out'') Timeout"
    "isinstance (Exc ConnectTimeout ''timed out'') ConnectionError"
    by (simp_all add: isinstance_def)
  have j: "isinstance (Exc ReadTimeout ''timed out'') Timeout"
    "\<not> isinstance (Exc ConnectionError ''Connection refused'') Timeout"
    "isinstance (Exc ConnectionError ''Connection refused'') ConnectionError"
    "\<not> str_in ''SSL'' ''Connection refused''"
    "\<not> str_in ''Name or service not known'' ''Connection refused''"
    "\<not> str_in ''nodename nor servname'' ''Connection refused''"
    "str_in ''Connection refused'' ''Connection refused''"
    "lower ''Connection refused'' = ''connection refused''"
    "\<not> str_in ''certificate'' ''connection refused''"
    by (simp_all add: isinstance_def lower_def lower_char_unfold)
  show ?thesis
    using exception_classification [of
        "\<lparr>dns_result = Resolved, head_result = Returns (Response 200 []),
          get_result = Raises (Exc ConnectTimeout ''timed out'')\<rparr>"
        "''example.com''" "Exc ConnectTimeout ''timed out''"]
      exception_classification [of
        "\<lparr>dns_result = Resolved, head_result = Raises (Exc ReadTimeout ''timed out''),
          get_result = Raises (Exc ConnectionError ''Connection refused'')\<rparr>"
        "''example.com''" "Exc ConnectionError ''Connection refused''"
        "Exc ReadTimeout ''timed out''"]
    by (simp add: e i j)
qed

section \<open>The retest pass\<close>


lemma wf_row:
  "map fst row = fieldnames \<Longrightarrow>
     \<exists>u s c m. row = [(''URL'', u), (''Status'', s), (''HTTP Code'', c), (''Error Message'', m)]"
  by (auto simp: fieldnames_def map_eq_Cons_conv)

lemma find_timeouts_wf:
  "list_all (\<lambda>row. map fst row = fieldnames) rows \<Longrightarrow>
     find_timeouts rows timeout_urls all_rows
       = Inr (timeout_urls
                @ map (\<lambda>row. the (map_of row ''URL''))
                    (filter (\<lambda>row. map_of row ''HTTP Code'' = Some ''Timeout'') rows),
              all_rows @ rows)"
proof (induction rows arbitrary: timeout_urls all_rows)
  case Nil
  then show ?case by simp
next
  case (Cons row rows)
  then have "map fst row = fieldnames" and rest: "list_all (\<lambda>row. map fst row = fieldnames) rows"
    by simp_all
  then obtain u s c m
    where row: "row = [(''URL'', u), (''Status'', s), (''HTTP Code'', c), (''Error Message'', m)]"
    using wf_row by blast
  show ?case
    using Cons.IH [OF rest] by (simp add: row)
qed

lemma except_option_all:
  "\<forall>p \<in> set hs. \<forall>r. snd p e = Some r \<longrightarrow> P r \<Longrightarrow> except hs e = Inr (Some r) \<Longrightarrow> P r"
  by (induction hs) (auto split: if_splits)

lemma rt_handlers_first: "except (rt_handlers mth u) e = Inr (Some r) \<Longrightarrow> fst r = u"
proof -
  have "\<forall>p \<in> set (rt_handlers mth u). \<forall>r. snd p e = Some r \<longrightarrow> fst r = u"
    by (auto simp: rt_handlers_def Let_def split: if_splits)
  then show "except (rt_handlers mth u) e = Inr (Some r) \<Longrightarrow> fst r = u"
    by (rule except_option_all)
qed

lemma rt_attempts_first: "snd (rt_attempts n u nu mths) = Inr r \<Longrightarrow> fst r = u"
proof (induction mths)
  case Nil
  then show ?case by auto
next
  case (Cons mth mths)
  show ?case
  proof (cases "if mth = HEAD then head_result n else get_result n")
    case (Returns response)
    with Cons.prems show ?thesis
      by (auto simp: rt_classify_def Let_def split: if_splits)
  next
    case (Raises e)
    show ?thesis
    proof (cases "except (rt_handlers mth u) e")
      case (Inl e')
      with Raises Cons.prems show ?thesis
        by (auto split: if_splits)
    next
      case (Inr x)
      show ?thesis
      proof (cases x)
        case None
        with Inr Raises Cons show ?thesis
          by (cases "rt_attempts n u nu mths") (auto split: if_splits)
      next
        case (Some r')
        with Inr Raises Cons.prems rt_handlers_first [of mth u e r'] show ?thesis
          by (auto split: if_splits)
      qed
    qed
  qed
qed

lemma check_url_with_retry_first: "fst (projr (snd (check_url_with_retry n url))) = url"
proof (cases "snd (check_url_with_retry n url)")
  case (Inl e)
  then show ?thesis
    using check_url_with_retry_total [of n url] by simp
next
  case (Inr r)
  then have "fst r = url"
    using rt_attempts_first [of n url "the (rt_normalize_url url)" "[HEAD, GET]" r]
    by (auto simp: check_url_with_retry_def Let_def simp del: rt_attempts.simps split: if_splits)
  with Inr show ?thesis by simp
qed

lemma rt_tasks_results:
  "map snd (rt_tasks nets urls)
     = map Inr (map (\<lambda>(i, url). projr (snd (check_url_with_retry (nets i) url)))
                  (enumerate 0 urls))"
proof -
  have "snd (check_url_with_retry (nets i) url)
          = Inr (projr (snd (check_url_with_retry (nets i) url)))"
    for i url
    using check_url_with_retry_total [of "nets i" url]
    by (cases "snd (check_url_with_retry (nets i) url)") auto
  then show ?thesis
    unfolding rt_tasks_def by (induction urls rule: rev_induct) (simp_all add: enumerate_append_eq)
qed

lemma store_results_snoc: "store_results (rs @ [r]) = (store_results rs)(fst r \<mapsto> r)"
  by (simp add: store_results_def)

lemma store_results_last:
  "store_results rs u
     = (case filter (\<lambda>r. fst r = u) rs of [] \<Rightarrow> None | r # rs' \<Rightarrow> Some (last (r # rs')))"
proof (induction rs rule: rev_induct)
  case Nil
  then show ?case by (simp add: store_results_def)
next
  case (snoc r rs)
  then show ?case
    by (cases "filter (\<lambda>r. fst r = u) rs") (auto simp: store_results_snoc)
qed

lemma store_results_Some: "store_results rs u = Some r \<Longrightarrow> r \<in> set rs \<and> fst r = u"
proof (induction rs rule: rev_induct)
  case Nil
  then show ?case by (simp add: store_results_def)
next
  case (snoc x rs)
  then show ?case
    by (auto simp: store_results_snoc split: if_splits)
qed

lemma dom_fold_store: "dom (fold (\<lambda>r m. m(f r \<mapsto> r)) rs m0) = dom m0 \<union> f ` set rs"
  by (induction rs arbitrary: m0) auto

lemma dom_store_results: "dom (store_results rs) = fst ` set rs"
  by (simp add: store_results_def dom_fold_store)

lemma update_rows_wf:
  "list_all (\<lambda>row. map fst row = fieldnames) rows \<Longrightarrow>
     \<exists>rows'. update_rows updated rows = Inr rows'
       \<and> list_all (\<lambda>row. map fst row = fieldnames) rows'
       \<and> map (map snd) rows'
         = map (\<lambda>row. case updated (the (map_of row ''URL'')) of
                         None \<Rightarrow> map snd row
                       | Some (u, status, code, message) \<Rightarrow>
                           [the (map_of row ''URL''), status, csv_str code, message]) rows"
proof (induction rows)
  case Nil
  then show ?case by simp
next
  case (Cons row rows)
  then have "map fst row = fieldnames" and rest: "list_all (\<lambda>row. map fst row = fieldnames) rows"
    by simp_all
  then obtain u s c m
    where row: "row = [(''URL'', u), (''Status'', s), (''HTTP Code'', c), (''Error Message'', m)]"
    using wf_row by blast
  from Cons.IH [OF rest] obtain rows' where "update_rows updated rows = Inr rows'"
    and "list_all (\<lambda>row. map fst row = fieldnames) rows'"
    and "map (map snd) rows'
         = map (\<lambda>row. case updated (the (map_of row ''URL'')) of
                         None \<Rightarrow> map snd row
                       | Some (u, status, code, message) \<Rightarrow>
                           [the (map_of row ''URL''), status, csv_str code, message]) rows"
    by blast
  then show ?case
    by (cases "updated u") (auto simp: row fieldnames_def)
qed

lemma writerows_wf:
  "list_all (\<lambda>row. map fst row = fieldnames) rows \<Longrightarrow> writerows rows = Inr (map (map snd) rows)"
proof (induction rows)
  case Nil
  then show ?case by simp
next
  case (Cons row rows)
  then have "map fst row = fieldnames" and rest: "list_all (\<lambda>row. map fst row = fieldnames) rows"
    by simp_all
  then obtain u s c m
    where row: "row = [(''URL'', u), (''Status'', s), (''HTTP Code'', c), (''Error Message'', m)]"
    using wf_row by blast
  have "writerow row = Inr (map snd row)"
    by (simp add: row writerow_def fieldnames_def Let_def)
  with Cons.IH [OF rest] show ?case
    by simp
qed

lemma rt_main_wf:
  assumes wf: "list_all (\<lambda>row. map fst row = fieldnames) rows"
    and some: "\<exists>row \<in> set rows. map_of row ''HTTP Code'' = Some ''Timeout''"
  shows "rt_main (Content rows) nets sched
     = Done (Some (OUTPUT_CSV, fieldnames,
          map (\<lambda>row.
                 case store_results (as_completed sched
                        (map (\<lambda>(i, url). projr (snd (check_url_with_retry (nets i) url)))
                           (enumerate 0
                              (map (\<lambda>row. the (map_of row ''URL''))
                                 (filter (\<lambda>row. map_of row ''HTTP Code'' = Some ''Timeout'')
                                    rows)))))
                      (the (map_of row ''URL'')) of
                   None \<Rightarrow> map snd row
                 | Some (u, status, code, message) \<Rightarrow>
                     [the (map_of row ''URL''), status, csv_str code, message])
            rows))"
proof -
  let ?timeouts = "map (\<lambda>row. the (map_of row ''URL''))
                     (filter (\<lambda>row. map_of row ''HTTP Code'' = Some ''Timeout'') rows)"
  let ?results = "as_completed sched
                    (map (\<lambda>(i, url). projr (snd (check_url_with_retry (nets i) url)))
                       (enumerate 0 ?timeouts))"
  have read: "read_csv_and_find_timeouts (Content rows) = Inr (?timeouts, rows)"
    using find_timeouts_wf [OF wf, of "[]" "[]"] by (simp add: read_csv_and_find_timeouts_def)
  have nonempty: "length ?timeouts \<noteq> 0"
    using some by (auto simp: filter_empty_conv)
  have results: "results_of (as_completed sched (map snd (rt_tasks nets ?timeouts))) = Inr ?results"
    by (simp only: rt_tasks_results as_completed_map results_of_map_Inr)
  obtain rows' where upd: "update_rows (store_results ?results) rows = Inr rows'"
    and wf': "list_all (\<lambda>row. map fst row = fieldnames) rows'"
    and cells: "map (map snd) rows'
         = map (\<lambda>row. case store_results ?results (the (map_of row ''URL'')) of
                         None \<Rightarrow> map snd row
                       | Some (u, status, code, message) \<Rightarrow>
                           [the (map_of row ''URL''), status, csv_str code, message]) rows"
    using update_rows_wf [OF wf, of "store_results ?results"] by blast
  have "rt_main (Content rows) nets sched = Done (Some (OUTPUT_CSV, fieldnames, map (map snd) rows'))"
    using nonempty
    by (simp only: rt_main_def read results upd writerows_wf [OF wf'] sum.case prod.case if_False)
  then show ?thesis
    by (simp only: cells)
qed

lemma rt_main_no_timeouts:
  assumes "list_all (\<lambda>row. map fst row = fieldnames) rows"
    and "\<not> (\<exists>row \<in> set rows. map_of row ''HTTP Code'' = Some ''Timeout'')"
  shows "rt_main (Content rows) nets sched = Done None"
proof -
  have "filter (\<lambda>row. map_of row ''HTTP Code'' = Some ''Timeout'') rows = []"
    using assms(2) by (simp add: filter_empty_conv)
  then have "read_csv_and_find_timeouts (Content rows) = Inr ([], rows)"
    using find_timeouts_wf [OF assms(1), of "[]" "[]"] by (simp add: read_csv_and_find_timeouts_def)
  then show ?thesis
    by (simp add: rt_main_def)
qed


lemma set_as_completed: "set (as_completed sched xs) = set xs"
  using mset_as_completed [of sched xs] by (metis set_mset_mset)

lemma retested_urls:
  "dom (store_results (as_completed sched
          (map (\<lambda>(i, url). projr (snd (check_url_with_retry (nets i) url))) (enumerate 0 urls))))
     = set urls"
proof -
  let ?results = "map (\<lambda>(i, url). projr (snd (check_url_with_retry (nets i) url))) (enumerate 0 urls)"
  have "map fst ?results = map (\<lambda>url. url) urls"
    by (rule map_fst_enumerate) (rule check_url_with_retry_first)
  then have "fst ` set ?results = set urls"
    by (metis list.map_ident list.set_map)
  then show ?thesis
    by (simp only: dom_store_results set_as_completed)
qed

lemma retest_result_provenance:
  assumes "store_results (as_completed sched
          (map (\<lambda>(i, url). projr (snd (check_url_with_retry (nets i) url))) (enumerate 0 urls))) u
       = Some r"
  shows "fst r = u \<and> (\<exists>i. snd (check_url_with_retry (nets i) u) = Inr r)"
proof -
  let ?results = "map (\<lambda>(i, url). projr (snd (check_url_with_retry (nets i) url))) (enumerate 0 urls)"
  from assms have "r \<in> set (as_completed sched ?results)" and u: "fst r = u"
    using store_results_Some by blast+
  then have "r \<in> set ?results"
    by (simp only: set_as_completed)
  then obtain i url where r: "r = projr (snd (check_url_with_retry (nets i) url))"
    by auto
  with u have "url = u"
    using check_url_with_retry_first [of "nets i" url] by simp
  moreover have "snd (check_url_with_retry (nets i) url) = Inr r"
    using check_url_with_retry_total [of "nets i" url] r
    by (cases "snd (check_url_with_retry (nets i) url)") auto
  ultimately show ?thesis
    using u by blast
qed

section \<open>The retest pass on any report it accepts\<close>

lemma rt_main_traced_result: "snd (rt_main_traced f nets sched) = rt_main f nets sched"
  by (simp add: rt_main_traced_def rt_main_def split: sum.splits prod.splits)

















section \<open>The merged report\<close>




text \<open>
  C10: retest results are kept in a dictionary keyed by URL, so of the results for one URL
  only the last to complete is kept; when the URL of a Timeout row occurs in several rows
  of a four-column report, every row with that URL is overwritten with the one result
  kept, which is the result of one of the probes of that URL.
\<close>

theorem duplicate_urls_share_one_result:
  "store_results results v
     = (case filter (\<lambda>r. fst r = v) results of [] \<Rightarrow> None | r # rs \<Rightarrow> Some (last (r # rs)))
   \<and> (list_all (\<lambda>row. map fst row = fieldnames) rows
        \<and> (\<exists>row \<in> set rows. map_of row ''HTTP Code'' = Some ''Timeout''
                               \<and> map_of row ''URL'' = Some u) \<longrightarrow>
      (\<exists>out status code message.
         rt_main (Content rows) nets sched = Done (Some (OUTPUT_CSV, fieldnames, out))
         \<and> (\<exists>i. snd (check_url_with_retry (nets i) u) = Inr (u, status, code, message))
         \<and> (\<forall>i < length rows. map_of (rows ! i) ''URL'' = Some u \<longrightarrow>
               out ! i = [u, status, csv_str code, message])))"
proof (intro conjI impI)
  show "store_results results v
     = (case filter (\<lambda>r. fst r = v) results of [] \<Rightarrow> None | r # rs \<Rightarrow> Some (last (r # rs)))"
    by (rule store_results_last)
next
  assume a: "list_all (\<lambda>row. map fst row = fieldnames) rows
        \<and> (\<exists>row \<in> set rows. map_of row ''HTTP Code'' = Some ''Timeout''
                               \<and> map_of row ''URL'' = Some u)"
  then have wf: "list_all (\<lambda>row. map fst row = fieldnames) rows"
    and some: "\<exists>row \<in> set rows. map_of row ''HTTP Code'' = Some ''Timeout''"
    by auto
  let ?timeouts = "map (\<lambda>row. the (map_of row ''URL''))
                     (filter (\<lambda>row. map_of row ''HTTP Code'' = Some ''Timeout'') rows)"
  define updated where "updated = store_results (as_completed sched
          (map (\<lambda>(i, url). projr (snd (check_url_with_retry (nets i) url)))
             (enumerate 0 ?timeouts)))"
  define out where "out = map (\<lambda>row.
                 case updated (the (map_of row ''URL'')) of
                   None \<Rightarrow> map snd row
                 | Some (u, status, code, message) \<Rightarrow>
                     [the (map_of row ''URL''), status, csv_str code, message]) rows"
  have main: "rt_main (Content rows) nets sched = Done (Some (OUTPUT_CSV, fieldnames, out))"
    unfolding out_def updated_def by (rule rt_main_wf [OF wf some])
  from a obtain row where "row \<in> set rows" and "map_of row ''HTTP Code'' = Some ''Timeout''"
    and "map_of row ''URL'' = Some u"
    by auto
  then have "u \<in> set ?timeouts"
    by force
  then have "u \<in> dom updated"
    unfolding updated_def by (simp only: retested_urls)
  then obtain r where r: "updated u = Some r"
    by auto
  obtain u' status code message where t: "r = (u', status, code, message)"
    by (cases r)
  from r have "fst r = u" and "\<exists>i. snd (check_url_with_retry (nets i) u) = Inr r"
    unfolding updated_def using retest_result_provenance by blast+
  with t have u': "u' = u"
    and probe: "\<exists>i. snd (check_url_with_retry (nets i) u) = Inr (u, status, code, message)"
    by auto
  have "\<forall>i < length rows. map_of (rows ! i) ''URL'' = Some u \<longrightarrow>
               out ! i = [u, status, csv_str code, message]"
    using r t by (simp add: out_def)
  with main probe show "\<exists>out status code message.
         rt_main (Content rows) nets sched = Done (Some (OUTPUT_CSV, fieldnames, out))
         \<and> (\<exists>i. snd (check_url_with_retry (nets i) u) = Inr (u, status, code, message))
         \<and> (\<forall>i < length rows. map_of (rows ! i) ''URL'' = Some u \<longrightarrow>
               out ! i = [u, status, csv_str code, message])"
    by blast
qed

theorem duplicate_urls_share_one_result_witness:
  "list_all (\<lambda>row. map fst row = fieldnames)
     [[(''URL'', ''a.example''), (''Status'', ''Inactive''), (''HTTP Code'', ''Timeout''),
       (''Error Message'', ''Request timeout'')],
      [(''URL'', ''b.example''), (''Status'', ''Active Kayako''), (''HTTP Code'', ''200''),
       (''Error Message'', [])],
      [(''URL'', ''a.example''), (''Status'', ''Inactive''), (''HTTP Code'', ''Timeout''),
       (''Error Message'', ''Request timeout'')]]
   \<and> read_csv_and_find_timeouts (Content
     [[(''URL'', ''a.example''), (''Status'', ''Inactive''), (''HTTP Code'', ''Timeout''),
       (''Error Message'', ''Request timeout'')],
      [(''URL'', ''b.example''), (''Status'', ''Active Kayako''), (''HTTP Code'', ''200''),
       (''Error Message'', [])],
      [(''URL'', ''a.example''), (''Status'', ''Inactive''), (''HTTP Code'', ''Timeout''),
       (''Error Message'', ''Request timeout'')]])
     = Inr ([''a.example'', ''a.example''],
     [[(''URL'', ''a.example''), (''Status'', ''Inactive''), (''HTTP Code'', ''Timeout''),
       (''Error Message'', ''Request timeout'')],
      [(''URL'', ''b.example''), (''Status'', ''Active Kayako''), (''HTTP Code'', ''200''),
       (''Error Message'', [])],
      [(''URL'', ''a.example''), (''Status'', ''Inactive''), (''HTTP Code'', ''Timeout''),
       (''Error Message'', ''Request timeout'')]])
   \<and> rt_main (Content
     [[(''URL'', ''a.example''), (''Status'', ''Inactive''), (''HTTP Code'', ''Timeout''),
       (''Error Message'', ''Request timeout'')],
      [(''URL'', ''b.example''), (''Status'', ''Active Kayako''), (''HTTP Code'', ''200''),
       (''Error Message'', [])],
      [(''URL'', ''a.example''), (''Status'', ''Inactive''), (''HTTP Code'', ''Timeout''),
       (''Error Message'', ''Request timeout'')]])
       (\<lambda>i. if i = 0
          then \<lparr>dns_result = Resolved, head_result = Returns (Response 200 []),
            get_result = Returns (Response 200 [])\<rparr>
          else \<lparr>dns_result = Resolved, head_result = Returns (Response 503 []),
                 get_result = Returns (Response 503 [])\<rparr>) []
     = Done (Some (''url_check_results_updated.csv'',
                   [''URL'', ''Status'', ''HTTP Code'', ''Error Message''],
                   [[''a.example'', ''Inactive'', ''503'', ''HTTP 503''],
                    [''b.example'', ''Active Kayako'', ''200'', []],
                    [''a.example'', ''Inactive'', ''503'', ''HTTP 503'']]))"
proof -
  have h1: "list_all (\<lambda>row. map fst row = fieldnames)
     [[(''URL'', ''a.example''), (''Status'', ''Inactive''), (''HTTP Code'', ''Timeout''),
       (''Error Message'', ''Request timeout'')],
      [(''URL'', ''b.example''), (''Status'', ''Active Kayako''), (''HTTP Code'', ''200''),
       (''Error Message'', [])],
      [(''URL'', ''a.example''), (''Status'', ''Inactive''), (''HTTP Code'', ''Timeout''),
       (''Error Message'', ''Request timeout'')]]"
    by (simp add: fieldnames_def)
  have h2: "\<exists>row \<in> set
     [[(''URL'', ''a.example''), (''Status'', ''Inactive''), (''HTTP Code'', ''Timeout''),
       (''Error Message'', ''Request timeout'')],
      [(''URL'', ''b.example''), (''Status'', ''Active Kayako''), (''HTTP Code'', ''200''),
       (''Error Message'', [])],
      [(''URL'', ''a.example''), (''Status'', ''Inactive''), (''HTTP Code'', ''Timeout''),
       (''Error Message'', ''Request timeout'')]].
        map_of row ''HTTP Code'' = Some ''Timeout''"
    by simp
  have h3: "\<exists>row \<in> set
     [[(''URL'', ''a.example''), (''Status'', ''Inactive''), (''HTTP Code'', ''Timeout''),
       (''Error Message'', ''Request timeout'')],
      [(''URL'', ''b.example''), (''Status'', ''Active Kayako''), (''HTTP Code'', ''200''),
       (''Error Message'', [])],
      [(''URL'', ''a.example''), (''Status'', ''Inactive''), (''HTTP Code'', ''Timeout''),
       (''Error Message'', ''Request timeout'')]].
        map_of row ''HTTP Code'' = Some ''Timeout'' \<and> map_of row ''URL'' = Some ''a.example''"
    by simp
  have s: "strip ''a.example'' = ''a.example''"
    by (simp add: strip_def isspace_def)
  have rd: "read_csv_and_find_timeouts (Content
     [[(''URL'', ''a.example''), (''Status'', ''Inactive''), (''HTTP Code'', ''Timeout''),
       (''Error Message'', ''Request timeout'')],
      [(''URL'', ''b.example''), (''Status'', ''Active Kayako''), (''HTTP Code'', ''200''),
       (''Error Message'', [])],
      [(''URL'', ''a.example''), (''Status'', ''Inactive''), (''HTTP Code'', ''Timeout''),
       (''Error Message'', ''Request timeout'')]])
     = Inr ([''a.example'', ''a.example''],
     [[(''URL'', ''a.example''), (''Status'', ''Inactive''), (''HTTP Code'', ''Timeout''),
       (''Error Message'', ''Request timeout'')],
      [(''URL'', ''b.example''), (''Status'', ''Active Kayako''), (''HTTP Code'', ''200''),
       (''Error Message'', [])],
      [(''URL'', ''a.example''), (''Status'', ''Inactive''), (''HTTP Code'', ''Timeout''),
       (''Error Message'', ''Request timeout'')]])"
    by (simp add: read_csv_and_find_timeouts_def)
  have ev: "rt_main (Content
     [[(''URL'', ''a.example''), (''Status'', ''Inactive''), (''HTTP Code'', ''Timeout''),
       (''Error Message'', ''Request timeout'')],
      [(''URL'', ''b.example''), (''Status'', ''Active Kayako''), (''HTTP Code'', ''200''),
       (''Error Message'', [])],
      [(''URL'', ''a.example''), (''Status'', ''Inactive''), (''HTTP Code'', ''Timeout''),
       (''Error Message'', ''Request timeout'')]])
       (\<lambda>i. if i = 0
          then \<lparr>dns_result = Resolved, head_result = Returns (Response 200 []),
            get_result = Returns (Response 200 [])\<rparr>
          else \<lparr>dns_result = Resolved, head_result = Returns (Response 503 []),
                 get_result = Returns (Response 503 [])\<rparr>) []
     = Done (Some (''url_check_results_updated.csv'',
                   [''URL'', ''Status'', ''HTTP Code'', ''Error Message''],
                   [[''a.example'', ''Inactive'', ''503'', ''HTTP 503''],
                    [''b.example'', ''Active Kayako'', ''200'', []],
                    [''a.example'', ''Inactive'', ''503'', ''HTTP 503'']]))"
    by (simp add: rt_main_wf [OF h1 h2] pick_def check_url_with_retry_def rt_normalize_url_def
        falsy_def s startswith_scheme_def rt_classify_def store_results_def csv_str_def
        str_int_def digit_char_def OUTPUT_CSV_def fieldnames_def Let_def)
  show ?thesis
    using duplicate_urls_share_one_result [of "[]" "[]"
       "[[(''URL'', ''a.example''), (''Status'', ''Inactive''), (''HTTP Code'', ''Timeout''),
       (''Error Message'', ''Request timeout'')],
      [(''URL'', ''b.example''), (''Status'', ''Active Kayako''), (''HTTP Code'', ''200''),
       (''Error Message'', [])],
      [(''URL'', ''a.example''), (''Status'', ''Inactive''), (''HTTP Code'', ''Timeout''),
       (''Error Message'', ''Request timeout'')]]"
       "''a.example''"
       "(\<lambda>i. if i = 0
          then \<lparr>dns_result = Resolved, head_result = Returns (Response 200 []),
            get_result = Returns (Response 200 [])\<rparr>
          else \<lparr>dns_result = Resolved, head_result = Returns (Response 503 []),
                 get_result = Returns (Response 503 [])\<rparr>)" "[]"] h1 h3 rd ev
    by blast
qed

end
